theory Spec2Isabelle
  imports Complex_Main "HOL-Library.Char_ord" "HOL-Library.List_Lexorder" "HOL-Library.AList"
begin

section \<open>Raw records and the aggregate-code denylist (collectors/deep\_un.py)\<close>

text \<open>
  A raw record is one JSON object of the provider's response. Only the four keys the
  transform reads are kept. Floating-point numbers are modelled as reals; a JSON
  \<open>null\<close> (and pandas' NaN) is \<open>None\<close>.

  \<^item> \<open>countryiso3code\<close>: the string under that key, \<open>[]\<close> when the key is missing
    (\<^verbatim>\<open>rec.get("countryiso3code", "")\<close>);
  \<^item> \<open>date\<close>: missing or null (\<open>DateNone\<close>), a string that \<^verbatim>\<open>int(year)\<close> parses
    (\<open>DateYear\<close>), or one on which \<^verbatim>\<open>int(year)\<close> raises (\<open>DateInvalid\<close>);
  \<^item> \<open>val\<close>: the number under \<^verbatim>\<open>"value"\<close>, or null;
  \<^item> \<open>country\<close>: the key is missing (\<^verbatim>\<open>rec.get("country", {})\<close> is then the empty
    dict), a dict with or without a \<^verbatim>\<open>"value"\<close> entry, or any other JSON value.
\<close>

datatype date_field = DateNone | DateYear int | DateInvalid

datatype country_field = CountryMissing | CountryDict "string option" | CountryOther

record raw_record =
  countryiso3code :: string
  date :: date_field
  val :: "real option"
  country :: country_field

datatype py_error = ValueError | ZeroDivisionError | TypeError | KeyError | IndexError

definition WB_AGGREGATE_CODES :: "string list" where
  "WB_AGGREGATE_CODES =
    [''WLD'', ''EAS'', ''ECS'', ''LCN'', ''MEA'', ''NAC'', ''SAS'', ''SSF'',
     ''EAP'', ''ECA'', ''LAC'', ''MNA'', ''SSA'', ''HIC'', ''LIC'', ''LMC'',
     ''LMY'', ''MIC'', ''UMC'', ''ARB'', ''CEB'', ''CSS'', ''EAR'', ''EMU'',
     ''FCS'', ''HPC'', ''IBD'', ''IBT'', ''IDA'', ''IDB'', ''IDX'', ''INX'',
     ''LDC'', ''LTE'', ''OED'', ''OSS'', ''PRE'', ''PSS'', ''PST'', ''SST'',
     ''TEA'', ''TEC'', ''TLA'', ''TMN'', ''TSA'', ''TSS'', ''AFE'', ''AFW'']"

section \<open>Data frames\<close>

text \<open>
  A pandas DataFrame with the years as index and one column per country code: the index
  and, per column, its name and its cells in index order. \<^verbatim>\<open>pd.DataFrame()\<close> has no
  row and no column; \<^verbatim>\<open>df.empty\<close> holds when either axis has length 0.
\<close>

record dataframe =
  index :: "int list"
  cols :: "(string \<times> real option list) list"

definition empty_frame :: dataframe where
  "empty_frame = \<lparr>index = [], cols = []\<rparr>"

definition is_empty :: "dataframe \<Rightarrow> bool" where
  "is_empty df \<longleftrightarrow> index df = [] \<or> cols df = []"

definition column_names :: "dataframe \<Rightarrow> string list" where
  "column_names df = map fst (cols df)"

fun position :: "'a \<Rightarrow> 'a list \<Rightarrow> nat option" where
  "position x [] = None"
| "position x (y # ys) =
    (if x = y then Some 0 else map_option Suc (position x ys))"

text \<open>The cell at a year and a country code; \<open>None\<close> when the label is on neither axis
  or the cell is NaN.\<close>

definition cell :: "dataframe \<Rightarrow> int \<Rightarrow> string \<Rightarrow> real option" where
  "cell df y c =
    (case map_of (cols df) c of
       None \<Rightarrow> None
     | Some xs \<Rightarrow> (case position y (index df) of
                    None \<Rightarrow> None
                  | Some i \<Rightarrow> if i < length xs then xs ! i else None))"

section \<open>Transform: \<open>_records_to_dataframe\<close>\<close>

subsection \<open>The filtering loop\<close>

text \<open>
  The loop over the records builds \<open>rows\<close> (code, year, value) and \<open>names\<close> (a dict in
  insertion order). A record with an empty or denylisted code, or with no date, is
  skipped; \<^verbatim>\<open>int(year)\<close> raises \<open>ValueError\<close> on a date that is no integer, which
  ends the whole call.
\<close>

type_synonym row = "string \<times> int \<times> real option"

definition country_name_of :: "string \<Rightarrow> country_field \<Rightarrow> string option" where
  "country_name_of iso3 co =
    (case co of
       CountryMissing \<Rightarrow> Some iso3
     | CountryDict None \<Rightarrow> Some iso3
     | CountryDict (Some n) \<Rightarrow> Some n
     | CountryOther \<Rightarrow> None)"

definition add_name :: "string \<Rightarrow> country_field \<Rightarrow> (string \<times> string) list \<Rightarrow> (string \<times> string) list" where
  "add_name iso3 co names =
    (case country_name_of iso3 co of
       Some n \<Rightarrow> if iso3 \<in> fst ` set names then names else names @ [(iso3, n)]
     | None \<Rightarrow> names)"

fun scan_records ::
  "raw_record list \<Rightarrow> row list \<Rightarrow> (string \<times> string) list
    \<Rightarrow> py_error + (row list \<times> (string \<times> string) list)" where
  "scan_records [] rows names = Inr (rows, names)"
| "scan_records (r # rs) rows names =
    (if countryiso3code r = [] \<or> countryiso3code r \<in> set WB_AGGREGATE_CODES
     then scan_records rs rows names
     else (case date r of
             DateNone \<Rightarrow> scan_records rs rows names
           | DateInvalid \<Rightarrow> Inl ValueError
           | DateYear y \<Rightarrow>
               scan_records rs (rows @ [(countryiso3code r, y, val r)])
                 (add_name (countryiso3code r) (country r) names)))"

subsection \<open>\<open>pivot_table(index="year", columns="iso3", values="value", aggfunc="first")\<close>\<close>

text \<open>
  pandas groups the rows by (year, iso3) and aggregates each group with
  \<^verbatim>\<open>GroupBy.first\<close>, which is the first \<^emph>\<open>non-null\<close> value of the group in row order, NaN
  when the group has none. With the default \<^verbatim>\<open>dropna=True\<close>, \<^verbatim>\<open>pivot_table\<close> then drops
  every group whose aggregate is NaN before it unstacks the country level: a year is a row
  of the result only if some country has a value in it, a country is a column only if it
  has a value in some year, and the other cells of the year \<open>\<times>\<close> country grid are NaN.
  Both axes come out sorted (\<^verbatim>\<open>pivot.sort_index\<close> is then the identity).
\<close>

definition group_values :: "row list \<Rightarrow> int \<Rightarrow> string \<Rightarrow> real option list" where
  "group_values rows y c = map (\<lambda>(c', y', v). v) (filter (\<lambda>(c', y', v). c' = c \<and> y' = y) rows)"

fun first_valid :: "real option list \<Rightarrow> real option" where
  "first_valid [] = None"
| "first_valid (None # vs) = first_valid vs"
| "first_valid (Some v # vs) = Some v"

definition agg_first :: "row list \<Rightarrow> int \<Rightarrow> string \<Rightarrow> real option" where
  "agg_first rows y c = first_valid (group_values rows y c)"

definition kept_groups :: "row list \<Rightarrow> (int \<times> string) list" where
  "kept_groups rows =
     filter (\<lambda>(y, c). agg_first rows y c \<noteq> None) (remdups (map (\<lambda>(c, y, v). (y, c)) rows))"

definition pivot_table :: "row list \<Rightarrow> dataframe" where
  "pivot_table rows =
    (let years = sort (remdups (map fst (kept_groups rows)));
         codes = sort (remdups (map snd (kept_groups rows)))
     in \<lparr>index = years,
         cols = map (\<lambda>c. (c, map (\<lambda>y. agg_first rows y c) years)) codes\<rparr>)"

subsection \<open>\<open>interpolate(method="linear", limit=3, axis=0)\<close>\<close>

text \<open>
  pandas interpolates each column on its own, down the rows. With \<^verbatim>\<open>method="linear"\<close>
  the index is ignored and the rows count as equally spaced. The defaults are
  \<^verbatim>\<open>limit_direction="forward"\<close> and \<^verbatim>\<open>limit_area=None\<close>: a NaN is filled when a value
  stands at most \<open>limit\<close> rows above it in the column. NaNs above the first value of the
  column stay; a NaN below the last value is filled with that last value (\<^verbatim>\<open>np.interp\<close>
  is constant beyond its last point), within the same limit.

  \<open>interp_from limit prev xs\<close> walks down a column; \<open>prev\<close> is the last value seen and the
  number of NaNs passed since. \<open>next_valid xs\<close> is the next value below and the number of
  NaNs before it.
\<close>

fun next_valid :: "real option list \<Rightarrow> (nat \<times> real) option" where
  "next_valid [] = None"
| "next_valid (Some v # xs) = Some (0, v)"
| "next_valid (None # xs) = map_option (\<lambda>(k, v). (Suc k, v)) (next_valid xs)"

fun interp_from :: "nat \<Rightarrow> (real \<times> nat) option \<Rightarrow> real option list \<Rightarrow> real option list" where
  "interp_from limit prev [] = []"
| "interp_from limit prev (Some v # xs) = Some v # interp_from limit (Some (v, 0)) xs"
| "interp_from limit None (None # xs) = None # interp_from limit None xs"
| "interp_from limit (Some (a, d)) (None # xs) =
    (if Suc d \<le> limit
     then Some (case next_valid xs of
                  None \<Rightarrow> a
                | Some (k, b) \<Rightarrow> a + (b - a) * real (Suc d) / real (Suc d + Suc k))
     else None) # interp_from limit (Some (a, Suc d)) xs"

definition interpolate :: "nat \<Rightarrow> dataframe \<Rightarrow> dataframe" where
  "interpolate limit df = df\<lparr>cols := map (\<lambda>(c, xs). (c, interp_from limit None xs)) (cols df)\<rparr>"

subsection \<open>The transform\<close>

definition records_to_dataframe ::
  "raw_record list \<Rightarrow> py_error + (dataframe \<times> (string \<times> string) list)" where
  "records_to_dataframe records =
    (if records = [] then Inr (empty_frame, [])
     else (case scan_records records [] [] of
             Inl e \<Rightarrow> Inl e
           | Inr (rows, names) \<Rightarrow>
               if rows = [] then Inr (empty_frame, names)
               else Inr (interpolate 3 (pivot_table rows), names)))"

section \<open>Growth rates: \<open>_compute_growth_rate\<close>\<close>

text \<open>
  \<^verbatim>\<open>df.shift(window)\<close> moves every column down by \<open>window\<close> rows and fills the top with
  NaN; it moves by row position, whatever the years in the index are. A comparison with
  NaN is false, so \<open>valid\<close> needs both cells present and positive. \<^verbatim>\<open>1.0 / window\<close>
  raises \<open>ZeroDivisionError\<close> for a zero window; the collector always passes 5.
\<close>

definition shift :: "nat \<Rightarrow> real option list \<Rightarrow> real option list" where
  "shift n xs = replicate (min n (length xs)) None @ take (length xs - n) xs"

definition growth_cell :: "nat \<Rightarrow> real option \<Rightarrow> real option \<Rightarrow> real option" where
  "growth_cell window x s =
    (case (x, s) of
       (Some a, Some b) \<Rightarrow>
         if a > 0 \<and> b > 0 then Some ((a / b) powr (1 / real window) - 1) else None
     | _ \<Rightarrow> None)"

definition compute_growth_rate :: "dataframe \<Rightarrow> nat \<Rightarrow> py_error + dataframe" where
  "compute_growth_rate df window =
    (if is_empty df \<or> length (index df) < window then Inr empty_frame
     else if window = 0 then Inl ZeroDivisionError
     else Inr \<lparr>index = index df,
               cols = map (\<lambda>(c, xs). (c, map2 (growth_cell window) xs (shift window xs)))
                        (cols df)\<rparr>)"

section \<open>Notions used to state the properties of the transform\<close>

text \<open>A record survives the filtering loop when its code is neither empty nor
  denylisted and it has a date. \<open>surviving_values records y c\<close> are the values of the
  surviving records of year \<open>y\<close> and country \<open>c\<close>, in input order.\<close>

definition survives :: "raw_record \<Rightarrow> bool" where
  "survives r \<longleftrightarrow>
     countryiso3code r \<noteq> [] \<and> countryiso3code r \<notin> set WB_AGGREGATE_CODES \<and> date r \<noteq> DateNone"

definition surviving_values :: "raw_record list \<Rightarrow> int \<Rightarrow> string \<Rightarrow> real option list" where
  "surviving_values records y c =
     map val (filter (\<lambda>r. survives r \<and> countryiso3code r = c \<and> date r = DateYear y) records)"

text \<open>\<open>carry prev xs\<close> is the state of the walk of \<open>interp_from\<close> after the cells
  \<open>xs\<close>: the last value seen and the number of NaNs since.\<close>

fun carry :: "(real \<times> nat) option \<Rightarrow> real option list \<Rightarrow> (real \<times> nat) option" where
  "carry prev [] = prev"
| "carry prev (Some v # xs) = carry (Some (v, 0)) xs"
| "carry None (None # xs) = carry None xs"
| "carry (Some (a, d)) (None # xs) = carry (Some (a, Suc d)) xs"

text \<open>\<open>observed records df c i\<close> is the value the surviving records give to country
  \<open>c\<close> in the year of row \<open>i\<close> of \<open>df\<close>, before any interpolation: the first non-null
  one, \<open>None\<close> when there is none.\<close>

definition observed :: "raw_record list \<Rightarrow> dataframe \<Rightarrow> string \<Rightarrow> nat \<Rightarrow> real option" where
  "observed records df c i = first_valid (surviving_values records (index df ! i) c)"

subsection \<open>Sample inputs\<close>

definition mk_record :: "string \<Rightarrow> string \<Rightarrow> int \<Rightarrow> real option \<Rightarrow> raw_record" where
  "mk_record c n y v =
     \<lparr>countryiso3code = c, date = DateYear y, val = v, country = CountryDict (Some n)\<rparr>"

text \<open>The scenario of the specification: a world aggregate, and one country with a
  null value between two values.\<close>

definition scenario_records :: "raw_record list" where
  "scenario_records =
    [mk_record ''WLD'' ''World'' 2001 (Some 100),
     mk_record ''USA'' ''United States'' 2000 (Some 10),
     mk_record ''USA'' ''United States'' 2001 None,
     mk_record ''USA'' ''United States'' 2002 (Some 20)]"

text \<open>The same scenario with a second country that has a value in 2001.\<close>

definition scenario_two_countries :: "raw_record list" where
  "scenario_two_countries =
     scenario_records @ [mk_record ''KOR'' ''Korea, Rep.'' 2001 (Some 1)]"

text \<open>Country AAA has values in 2000 and 2005 only, and nulls in between and in 2006;
  country BBB has a value in every year from 2000 to 2006.\<close>

definition gap_records :: "raw_record list" where
  "gap_records =
    [mk_record ''AAA'' ''A'' 2000 (Some 1),
     mk_record ''AAA'' ''A'' 2001 None,
     mk_record ''AAA'' ''A'' 2002 None,
     mk_record ''AAA'' ''A'' 2003 None,
     mk_record ''AAA'' ''A'' 2004 None,
     mk_record ''AAA'' ''A'' 2005 (Some 6),
     mk_record ''AAA'' ''A'' 2006 None,
     mk_record ''BBB'' ''B'' 2000 (Some 1),
     mk_record ''BBB'' ''B'' 2001 (Some 1),
     mk_record ''BBB'' ''B'' 2002 (Some 1),
     mk_record ''BBB'' ''B'' 2003 (Some 1),
     mk_record ''BBB'' ''B'' 2004 (Some 1),
     mk_record ''BBB'' ''B'' 2005 (Some 1),
     mk_record ''BBB'' ''B'' 2006 (Some 1)]"

definition gap_frame :: dataframe where
  "gap_frame =
    \<lparr>index = [2000, 2001, 2002, 2003, 2004, 2005, 2006],
     cols = [(''AAA'', [Some 1, Some 2, Some 3, Some 4, None, Some 6, Some 6]),
             (''BBB'', [Some 1, Some 1, Some 1, Some 1, Some 1, Some 1, Some 1])]\<rparr>"

text \<open>Two records of the same year and country, the first with a null value.\<close>

definition duplicate_records :: "raw_record list" where
  "duplicate_records =
    [mk_record ''USA'' ''United States'' 2000 None,
     mk_record ''USA'' ''United States'' 2000 (Some 7),
     mk_record ''USA'' ''United States'' 2000 (Some 9)]"

text \<open>One country with a value every second year from 2000 to 2010.\<close>

definition biennial_records :: "raw_record list" where
  "biennial_records =
    [mk_record ''USA'' ''United States'' 2000 (Some 1),
     mk_record ''USA'' ''United States'' 2002 (Some 2),
     mk_record ''USA'' ''United States'' 2004 (Some 4),
     mk_record ''USA'' ''United States'' 2006 (Some 8),
     mk_record ''USA'' ''United States'' 2008 (Some 16),
     mk_record ''USA'' ''United States'' 2010 (Some 32)]"

definition biennial_frame :: dataframe where
  "biennial_frame =
    \<lparr>index = [2000, 2002, 2004, 2006, 2008, 2010],
     cols = [(''USA'', [Some 1, Some 2, Some 4, Some 8, Some 16, Some 32])]\<rparr>"

definition duplicate_frame :: dataframe where
  "duplicate_frame = \<lparr>index = [2000], cols = [(''USA'', [Some 7])]\<rparr>"

definition scenario_frame :: dataframe where
  "scenario_frame = \<lparr>index = [2000, 2002], cols = [(''USA'', [Some 10, Some 20])]\<rparr>"

definition scenario_two_frame :: dataframe where
  "scenario_two_frame =
    \<lparr>index = [2000, 2001, 2002],
     cols = [(''KOR'', [None, Some 1, Some 1]), (''USA'', [Some 10, Some 15, Some 20])]\<rparr>"

definition biennial_growth :: dataframe where
  "biennial_growth =
    \<lparr>index = [2000, 2002, 2004, 2006, 2008, 2010],
     cols = [(''USA'', [None, None, None, None, None, Some 1])]\<rparr>"


section \<open>Analytics (logic/analytics.py)\<close>

subsection \<open>Numbers and rounding\<close>


definition round_half_even :: "real \<Rightarrow> int" where
  "round_half_even x =
    (let f = \<lfloor>x\<rfloor>; d = x - of_int f
     in if d < 1 / 2 then f else if d > 1 / 2 then f + 1 else if even f then f else f + 1)"

definition py_round :: "nat \<Rightarrow> real \<Rightarrow> real" where
  "py_round n x = of_int (round_half_even (x * 10 ^ n)) / 10 ^ n"


subsection \<open>Series and their alignment\<close>

text \<open>
  A pandas Series: its labels with their values, in index order; \<open>None\<close> is NaN.
  \<^verbatim>\<open>pd.DataFrame({"x": s, "y": t}).dropna()\<close> puts the two Series side by side and keeps
  the rows where both have a value. When the two indexes are equal the rows pair up
  by position. Otherwise the index of the frame is the sorted union of the labels and each
  Series is reindexed, which raises \<open>ValueError\<close> on a Series with a duplicate label.
\<close>

type_synonym 'k series = "('k \<times> real option) list"

definition both_present :: "'k \<Rightarrow> real option \<Rightarrow> real option \<Rightarrow> ('k \<times> real \<times> real) option" where
  "both_present k x y =
    (case x of None \<Rightarrow> None
     | Some a \<Rightarrow> (case y of None \<Rightarrow> None | Some b \<Rightarrow> Some (k, a, b)))"

definition reindexed :: "'k series \<Rightarrow> 'k \<Rightarrow> real option" where
  "reindexed s k = (case map_of s k of None \<Rightarrow> None | Some v \<Rightarrow> v)"

definition combine :: "('k::linorder) series \<Rightarrow> 'k series \<Rightarrow> py_error + ('k \<times> real \<times> real) list" where
  "combine s t =
    (if map fst s = map fst t
     then Inr (List.map_filter (\<lambda>((k, x), (k', y)). both_present k x y) (zip s t))
     else if \<not> distinct (map fst s) \<or> \<not> distinct (map fst t) then Inl ValueError
     else Inr (List.map_filter (\<lambda>k. both_present k (reindexed s k) (reindexed t k))
                 (sort (remdups (map fst s @ map fst t)))))"

subsection \<open>\<open>calculate_correlation\<close>\<close>

text \<open>
  \<^verbatim>\<open>scipy.stats.pearsonr\<close>: NaN for a constant input; otherwise the sum of the products
  of the deviations from the means, each vector divided by its Euclidean norm, clipped
  to \<open>[-1, 1]\<close>. The p-value is a function of the number of samples and of \<open>r\<close> that scipy
  computes from a distribution function; it is a parameter \<open>pv\<close> here.
\<close>

definition mean :: "real list \<Rightarrow> real" where
  "mean xs = sum_list xs / real (length xs)"

definition deviations :: "real list \<Rightarrow> real list" where
  "deviations xs = map (\<lambda>x. x - mean xs) xs"


definition dot :: "real list \<Rightarrow> real list \<Rightarrow> real" where
  "dot xs ys = sum_list (map2 (*) xs ys)"

definition is_constant :: "real list \<Rightarrow> bool" where
  "is_constant xs \<longleftrightarrow> (\<forall>x \<in> set xs. x = hd xs)"

definition clip :: "real \<Rightarrow> real" where
  "clip r = max (min r 1) (- 1)"




subsection \<open>\<open>detect_green_growth\<close>\<close>

text \<open>
  The frame pairs the CO2 and GDP growth of each country. \<^verbatim>\<open>sort_values\<close> sorts by
  falling score; the order among equal scores is that of a stable sort here.
  \<open>top_n\<close> is a count (the caller passes the default 10).
\<close>

record ranking =
  rank :: nat
  iso3 :: string
  country_name :: string
  gdp_growth_5y :: real
  co2_growth_5y :: real
  decoupling_score :: real

definition is_green :: "string \<times> real \<times> real \<Rightarrow> bool" where
  "is_green row = (case row of (k, co2, gdp) \<Rightarrow> gdp > 0 \<and> co2 < 0)"

definition score :: "string \<times> real \<times> real \<Rightarrow> real" where
  "score row = (case row of (k, co2, gdp) \<Rightarrow> gdp - co2)"

definition ranking_of :: "(string \<times> string) list \<Rightarrow> nat \<Rightarrow> string \<times> real \<times> real \<Rightarrow> ranking" where
  "ranking_of names i row =
    (case row of (k, co2, gdp) \<Rightarrow>
       \<lparr>rank = i + 1, iso3 = k,
        country_name = (case map_of names k of None \<Rightarrow> k | Some n \<Rightarrow> n),
        gdp_growth_5y = py_round 2 (gdp * 100),
        co2_growth_5y = py_round 2 (co2 * 100),
        decoupling_score = py_round 2 (score row * 100)\<rparr>)"

definition detect_green_growth ::
  "string series \<Rightarrow> string series \<Rightarrow> (string \<times> string) list \<Rightarrow> nat \<Rightarrow> py_error + ranking list" where
  "detect_green_growth co2_growth gdp_growth country_names top_n =
    (case combine co2_growth gdp_growth of
       Inl e \<Rightarrow> Inl e
     | Inr combined \<Rightarrow>
         (let green = filter is_green combined
          in if green = [] then Inr []
             else (let top = take top_n (sort_key (\<lambda>row. - score row) green)
                   in Inr (map (\<lambda>(i, row). ranking_of country_names i row)
                             (zip [0..<length top] top)))))"

subsection \<open>\<open>forecast_trend\<close>\<close>

text \<open>
  \<^verbatim>\<open>scipy.stats.linregress\<close> raises \<open>ValueError\<close> when all \<open>x\<close> are equal. Otherwise,
  with the (biased) variances and covariance of the sample, the slope is
  \<open>ssxym / ssxm\<close>, the intercept \<open>ymean - slope * xmean\<close>, and \<open>r\<close> is 0 when \<open>y\<close> is
  constant and the clipped \<open>ssxym / sqrt (ssxm * ssym)\<close> otherwise. The p-value is again
  a function of the number of samples and of \<open>r\<close>, taken as a parameter.

  In the loop over the years, \<^verbatim>\<open>clean[yr]\<close> is a Series when the label occurs twice, and
  \<^verbatim>\<open>float\<close> of it raises \<open>TypeError\<close>.

  In the result, \<open>None\<close> in \<open>predicted_value\<close> is Python's \<open>None\<close>; in the fields after it,
  \<open>None\<close> says that the dict has no such key.
\<close>

definition covariance :: "real list \<Rightarrow> real list \<Rightarrow> real" where
  "covariance xs ys = dot (deviations xs) (deviations ys) / real (length xs)"

record regression =
  slope :: real
  intercept :: real
  r_value :: real
  reg_p_value :: real

definition linregress :: "(nat \<Rightarrow> real \<Rightarrow> real) \<Rightarrow> real list \<Rightarrow> real list \<Rightarrow> py_error + regression" where
  "linregress pv xs ys =
    (if is_constant xs then Inl ValueError
     else (let ssxm = covariance xs xs; ssxym = covariance xs ys; ssym = covariance ys ys;
               r = (if ssxm = 0 \<or> ssym = 0 then 0 else clip (ssxym / sqrt (ssxm * ssym)));
               sl = ssxym / ssxm
           in Inr \<lparr>slope = sl, intercept = mean ys - sl * mean xs, r_value = r,
                   reg_p_value = pv (length xs) r\<rparr>))"

record trend_point =
  year :: int
  actual :: "real option"
  trend :: real

record forecast =
  target_year :: int
  predicted_value :: "real option"
  slope_per_year :: "real option"
  r_squared :: "real option"
  trend_p_value :: "real option"
  trend_points :: "trend_point list option"
  trend_error :: "string option"

definition dropna :: "'k series \<Rightarrow> ('k \<times> real) list" where
  "dropna s = List.map_filter (\<lambda>(k, v). map_option (\<lambda>x. (k, x)) v) s"

definition forecast_trend ::
  "(nat \<Rightarrow> real \<Rightarrow> real) \<Rightarrow> int series \<Rightarrow> int \<Rightarrow> py_error + forecast" where
  "forecast_trend pv series target =
    (let clean = dropna series
     in if length clean < 3
        then Inr \<lparr>target_year = target, predicted_value = None, slope_per_year = None,
                  r_squared = None, trend_p_value = None, trend_points = None,
                  trend_error = Some ''Insufficient data for trend analysis.''\<rparr>
        else (case linregress pv (map (\<lambda>(yr, v). real_of_int yr) clean) (map snd clean) of
                Inl e \<Rightarrow> Inl e
              | Inr reg \<Rightarrow>
                  if \<not> distinct (map fst clean) then Inl TypeError
                  else (let predicted = slope reg * real_of_int target + intercept reg
                        in Inr \<lparr>target_year = target,
                                predicted_value = Some (py_round 4 predicted),
                                slope_per_year = Some (py_round 6 (slope reg)),
                                r_squared = Some (py_round 4 (r_value reg * r_value reg)),
                                trend_p_value = Some (py_round 6 (reg_p_value reg)),
                                trend_points = Some
                                  (map (\<lambda>(yr, v).
                                          \<lparr>year = yr, actual = Some (py_round 4 v),
                                           trend = py_round 4 (slope reg * real_of_int yr + intercept reg)\<rparr>)
                                       clean
                                   @ [\<lparr>year = target, actual = None,
                                        trend = py_round 4 predicted\<rparr>]),
                                trend_error = None\<rparr>)))"

subsection \<open>Notions used to state the properties of the analytics\<close>

text \<open>The labels of the frame that pairs two Series.\<close>

definition frame_index :: "('k::linorder) series \<Rightarrow> 'k series \<Rightarrow> 'k list" where
  "frame_index s t =
     (if map fst s = map fst t then map fst s else sort (remdups (map fst s @ map fst t)))"

text \<open>A country is aligned when both Series have a value for it; it is green when, in
  addition, its GDP growth is positive and its CO2 growth negative.\<close>

definition aligned :: "'k series \<Rightarrow> 'k series \<Rightarrow> 'k \<Rightarrow> bool" where
  "aligned s t k \<longleftrightarrow> reindexed s k \<noteq> None \<and> reindexed t k \<noteq> None"

definition value_at :: "'k series \<Rightarrow> 'k \<Rightarrow> real" where
  "value_at s k = (case reindexed s k of None \<Rightarrow> 0 | Some v \<Rightarrow> v)"

definition green :: "string series \<Rightarrow> string series \<Rightarrow> string \<Rightarrow> bool" where
  "green co2 gdp k \<longleftrightarrow> aligned co2 gdp k \<and> value_at gdp k > 0 \<and> value_at co2 k < 0"



text \<open>The rows of the paired frame that the ranking keeps, best first.\<close>

definition top_green :: "(string \<times> real \<times> real) list \<Rightarrow> nat \<Rightarrow> (string \<times> real \<times> real) list" where
  "top_green combined top_n = take top_n (sort_key (\<lambda>row. - score row) (filter is_green combined))"

text \<open>The score of a country before scaling and rounding.\<close>

definition raw_score :: "string series \<Rightarrow> string series \<Rightarrow> string \<Rightarrow> real" where
  "raw_score co2 gdp k = value_at gdp k - value_at co2 k"

text \<open>The scenario of the specification for the ranking.\<close>

definition scenario_co2 :: "string series" where
  "scenario_co2 = [(''A'', Some (- 0.02)), (''B'', Some (- 0.01))]"

definition scenario_gdp :: "string series" where
  "scenario_gdp = [(''A'', Some 0.03), (''B'', Some (- 0.01))]"





text \<open>A sample Series for the forecast: 2000 to 2003 on the line \<open>y = 2 * year - 3990\<close>,
  and one year without a value.\<close>

definition line_series :: "int series" where
  "line_series = [(2000, Some 10), (2001, Some 12), (2002, None), (2003, Some 16)]"


section \<open>The indicator catalog (collectors/deep\_un.py)\<close>

text \<open>
  \<open>CLUSTERS\<close>: each cluster with its description and its indicators (short name and
  provider code), in the order of the source. A character outside ASCII is its UTF-8
  bytes. Python dicts keep insertion order, and assigning to a key that exists replaces
  the value in place: that is \<open>AList.update\<close> on an association list.
\<close>

definition CLUSTERS :: "(string \<times> string \<times> (string \<times> string) list) list" where
  "CLUSTERS =
   [(''energy_transition'',
     ''Is this country actually decarbonizing, or just greenwashing?'',
     [(''co2_emissions'', ''EN.GHG.CO2.PC.CE.AR5''),
      (''renewable_energy'', ''EG.FEC.RNEW.ZS''),
      (''fossil_fuel_energy_pct'', ''EG.USE.COMM.FO.ZS''),
      (''access_electricity'', ''EG.ELC.ACCS.ZS''),
      (''electric_power_kwh'', ''EG.USE.ELEC.KH.PC''),
      (''energy_use_per_capita'', ''EG.USE.PCAP.KG.OE''),
      (''alt_nuclear_energy_pct'', ''EG.USE.COMM.CL.ZS''),
      (''co2_from_transport_pct'', ''EN.CO2.TRAN.ZS''),
      (''co2_from_manufacturing_pct'', ''EN.CO2.MANF.ZS''),
      (''co2_from_electricity_pct'', ''EN.CO2.ETOT.ZS''),
      (''energy_intensity'', ''EG.EGY.PRIM.PP.KD''),
      (''elec_from_coal_pct'', ''EG.ELC.COAL.ZS''),
      (''elec_from_gas_pct'', ''EG.ELC.NGAS.ZS''),
      (''elec_from_oil_pct'', ''EG.ELC.PETR.ZS''),
      (''elec_from_hydro_pct'', ''EG.ELC.HYRO.ZS''),
      (''elec_from_nuclear_pct'', ''EG.ELC.NUCL.ZS'')]),
    (''agricultural_resilience'',
     ''Will food security collapse under +2'' @ [CHR 0xC2, CHR 0xB0] @ ''C warming?'',
     [(''cereal_yield'', ''AG.YLD.CREL.KG''),
      (''agricultural_land_pct'', ''AG.LND.AGRI.ZS''),
      (''arable_land_pct'', ''AG.LND.ARBL.ZS''),
      (''fertilizer_consumption'', ''AG.CON.FERT.ZS''),
      (''food_production_index'', ''AG.PRD.FOOD.XD''),
      (''crop_production_index'', ''AG.PRD.CROP.XD''),
      (''livestock_production_index'', ''AG.PRD.LVSK.XD''),
      (''methane_agriculture_pct'', ''EN.ATM.METH.AG.ZS''),
      (''n2o_agriculture_pct'', ''EN.ATM.NOXE.AG.ZS''),
      (''freshwater_withdrawal_agri'', ''ER.H2O.FWAG.ZS''),
      (''freshwater_per_capita'', ''ER.H2O.INTR.PC''),
      (''agriculture_value_added_pct'', ''NV.AGR.TOTL.ZS''),
      (''employment_agriculture_pct'', ''SL.AGR.EMPL.ZS''),
      (''forest_area_pct'', ''AG.LND.FRST.ZS'')]),
    (''urban_health'',
     ''Are cities becoming death traps due to pollution and heat?'',
     [(''pm25_exposure'', ''EN.ATM.PM25.MC.M3''),
      (''pm25_pop_exposed_pct'', ''EN.ATM.PM25.MC.ZS''),
      (''urban_population_pct'', ''SP.URB.TOTL.IN.ZS''),
      (''urban_population_growth'', ''SP.URB.GROW''),
      (''sanitation_safe_pct'', ''SH.STA.SMSS.ZS''),
      (''water_safe_pct'', ''SH.H2O.SMDW.ZS''),
      (''sanitation_basic_pct'', ''SH.STA.BASS.ZS''),
      (''water_basic_pct'', ''SH.H2O.BASW.ZS''),
      (''mortality_under5'', ''SH.DYN.MORT''),
      (''life_expectancy'', ''SP.DYN.LE00.IN''),
      (''health_expenditure_pct_gdp'', ''SH.XPD.CHEX.GD.ZS''),
      (''population_density'', ''EN.POP.DNST''),
      (''population_total'', ''SP.POP.TOTL'')]),
    (''economic_risk'',
     ''Is the economy too dependent on extracting resources?'',
     [(''gdp_per_capita'', ''NY.GDP.PCAP.CD''),
      (''gdp_growth'', ''NY.GDP.MKTP.KD.ZG''),
      (''inflation'', ''FP.CPI.TOTL.ZG''),
      (''fdi_net_inflows_pct'', ''BX.KLT.DINV.WD.GD.ZS''),
      (''natural_resource_rents_pct'', ''NY.GDP.TOTL.RT.ZS''),
      (''oil_rents_pct'', ''NY.GDP.PETR.RT.ZS''),
      (''coal_rents_pct'', ''NY.GDP.COAL.RT.ZS''),
      (''mineral_rents_pct'', ''NY.GDP.MINR.RT.ZS''),
      (''gas_rents_pct'', ''NY.GDP.NGAS.RT.ZS''),
      (''forest_rents_pct'', ''NY.GDP.FRST.RT.ZS''),
      (''trade_pct_gdp'', ''NE.TRD.GNFS.ZS''),
      (''external_debt_pct_gni'', ''DT.DOD.DECT.GN.ZS''),
      (''gross_capital_formation_pct'', ''NE.GDI.TOTL.ZS''),
      (''current_account_balance_pct'', ''BN.CAB.XOKA.GD.ZS'')])]"

definition INDICATORS :: "(string \<times> string) list" where
  "INDICATORS =
     fold (\<lambda>(cname, description, indicators) acc.
             fold (\<lambda>(name, code). AList.update name code) indicators acc)
          CLUSTERS []"

section \<open>The cache (collectors/deep\_un.py)\<close>

text \<open>
  The cache file holds one JSON object. Its values are modelled by what the code does
  with them: the \<^verbatim>\<open>_meta\<close> object with its timestamp if it has one (\<open>Meta\<close>), a list
  of raw records (\<open>Records\<close>), or any other JSON value (\<open>Malformed\<close>). The disk has no
  cache file, a file that cannot be read or parsed into a JSON object, or a document.
  Writing the document with \<^verbatim>\<open>json.dumps\<close> and reading it with \<^verbatim>\<open>json.loads\<close> is taken
  to give the document back: serialisation is not modelled.

  Every exception inside \<^verbatim>\<open>_load_cache\<close> and \<^verbatim>\<open>_save_cache\<close> is caught there. A read that
  fails gives \<open>None\<close>. For a write, the outcome of the file operations is a parameter:
  they succeed, or they fail and leave the disk in some state.
\<close>

datatype cache_value = Meta "real option" | Records "raw_record list" | Malformed

type_synonym cache_doc = "(string \<times> cache_value) list"

datatype disk = NoFile | Unreadable | Doc cache_doc

datatype io_outcome = Succeeds | Fails disk

text \<open>\<^verbatim>\<open>cache.get("_meta", {}).get("timestamp", 0)\<close>: 0 without \<^verbatim>\<open>_meta\<close> or without a
  timestamp in it; an exception (here \<open>None\<close>) when \<^verbatim>\<open>_meta\<close> is no object.\<close>

definition cache_timestamp :: "cache_doc \<Rightarrow> real option" where
  "cache_timestamp c =
    (case map_of c ''_meta'' of
       None \<Rightarrow> Some 0
     | Some (Meta None) \<Rightarrow> Some 0
     | Some (Meta (Some ts)) \<Rightarrow> Some ts
     | Some (Records rs) \<Rightarrow> None
     | Some Malformed \<Rightarrow> None)"

definition load_cache :: "int \<Rightarrow> real \<Rightarrow> disk \<Rightarrow> cache_doc option" where
  "load_cache max_age_hours now d =
    (case d of
       NoFile \<Rightarrow> None
     | Unreadable \<Rightarrow> None
     | Doc c \<Rightarrow>
        (case cache_timestamp c of
           None \<Rightarrow> None
         | Some ts \<Rightarrow>
             if (now - ts) / 3600 > real_of_int max_age_hours then None else Some c))"

definition save_cache :: "io_outcome \<Rightarrow> real \<Rightarrow> cache_doc \<Rightarrow> disk \<Rightarrow> disk" where
  "save_cache io now data d =
    (case io of
       Succeeds \<Rightarrow>
         Doc (fold (\<lambda>(k, v). AList.update k v) data [(''_meta'', Meta (Some now))])
     | Fails left \<Rightarrow> left)"

text \<open>A raw-record map as the argument of \<open>save_cache\<close>.\<close>

definition as_cache :: "(string \<times> raw_record list) list \<Rightarrow> cache_doc" where
  "as_cache data = map (\<lambda>(k, rs). (k, Records rs)) data"

section \<open>The collector (collectors/deep\_un.py)\<close>

record collector =
  dataframes :: "(string \<times> dataframe) list"
  country_names :: "(string \<times> string) list"
  loaded :: bool

subsection \<open>\<open>load_all\<close>\<close>

text \<open>
  What a load reads from outside: the freshness window (\<^verbatim>\<open>CACHE_MAX_AGE_HOURS\<close>), the
  clock at the cache read and at the cache write, the outcome of the write, and the
  provider's answer for each indicator code (\<open>[]\<close> when the request fails: the fetch
  catches every exception). The fetches of one \<^verbatim>\<open>gather\<close> run concurrently; each result
  is stored under its own name, so the map does not depend on the order of completion.
\<close>

record env =
  max_age_hours :: int
  read_clock :: real
  write_clock :: real
  write_outcome :: io_outcome
  fetch :: "string \<Rightarrow> raw_record list"

text \<open>The loop \<^verbatim>\<open>for name in INDICATORS: if name in cached: raw_data[name] = cached[name]\<close>
  and the list of the missing indicators.\<close>

definition hydrate :: "cache_doc \<Rightarrow> cache_doc" where
  "hydrate cached =
     fold (\<lambda>(name, code) raw.
             case map_of cached name of None \<Rightarrow> raw | Some v \<Rightarrow> AList.update name v raw)
          INDICATORS []"

definition missing :: "cache_doc \<Rightarrow> (string \<times> string) list" where
  "missing raw = filter (\<lambda>(name, code). name \<notin> fst ` set raw) INDICATORS"

definition fetch_into :: "env \<Rightarrow> (string \<times> string) list \<Rightarrow> cache_doc \<Rightarrow> cache_doc" where
  "fetch_into e indicators raw =
     fold (\<lambda>(name, code). AList.update name (Records (fetch e code))) indicators raw"

definition fetch_everything :: "env \<Rightarrow> cache_doc" where
  "fetch_everything e =
     fold (\<lambda>(cname, description, indicators). fetch_into e indicators) CLUSTERS []"

text \<open>The transform of one entry of \<open>raw_data\<close>. On a cached value that is no list of
  records the loop of the transform raises (\<open>TypeError\<close> or \<open>AttributeError\<close>; one error
  stands for both).\<close>

definition transform_value ::
  "cache_value \<Rightarrow> py_error + (dataframe \<times> (string \<times> string) list)" where
  "transform_value v =
    (case v of Records rs \<Rightarrow> records_to_dataframe rs | Meta m \<Rightarrow> Inl TypeError
     | Malformed \<Rightarrow> Inl TypeError)"

text \<open>The two loops over the collector. An exception leaves the collector as the loop
  had it at that point.\<close>

fun transform_all :: "cache_doc \<Rightarrow> collector \<Rightarrow> collector \<times> py_error option" where
  "transform_all [] s = (s, None)"
| "transform_all ((name, v) # rest) s =
    (case transform_value v of
       Inl e \<Rightarrow> (s, Some e)
     | Inr (df, names) \<Rightarrow>
         transform_all rest
           (s\<lparr>dataframes := AList.update name df (dataframes s),
              country_names := fold (\<lambda>(k, n). AList.update k n) names (country_names s)\<rparr>))"

definition get_indicator_df :: "collector \<Rightarrow> string \<Rightarrow> dataframe" where
  "get_indicator_df s indicator =
    (case map_of (dataframes s) indicator of None \<Rightarrow> empty_frame | Some df \<Rightarrow> df)"

fun growth_all :: "string list \<Rightarrow> collector \<Rightarrow> collector \<times> py_error option" where
  "growth_all [] s = (s, None)"
| "growth_all (name # rest) s =
    (case compute_growth_rate (get_indicator_df s name) 5 of
       Inl e \<Rightarrow> (s, Some e)
     | Inr g \<Rightarrow>
         growth_all rest (s\<lparr>dataframes := AList.update (name @ ''_growth_5y'') g (dataframes s)\<rparr>))"

record load_result =
  state :: collector
  disk_after :: disk
  fetched :: "string list"
  raised :: "py_error option"

definition gather_raw :: "env \<Rightarrow> disk \<Rightarrow> cache_doc \<times> disk \<times> string list" where
  "gather_raw e d =
    (let everything =
           (let raw = fetch_everything e
            in (raw, save_cache (write_outcome e) (write_clock e) raw d,
                concat (map (\<lambda>(cname, description, indicators). map snd indicators) CLUSTERS)))
     in case load_cache (max_age_hours e) (read_clock e) d of
          None \<Rightarrow> everything
        | Some cached \<Rightarrow>
            if cached = [] then everything
            else (let raw = hydrate cached; todo = missing raw
                  in if todo = [] then (raw, d, [])
                     else (let raw' = fetch_into e todo raw
                           in (raw', save_cache (write_outcome e) (write_clock e) raw' d,
                               map snd todo))))"

definition load_all :: "env \<Rightarrow> collector \<Rightarrow> disk \<Rightarrow> load_result" where
  "load_all e s d =
    (if loaded s then \<lparr>state = s, disk_after = d, fetched = [], raised = None\<rparr>
     else (case gather_raw e d of (raw, d', calls) \<Rightarrow>
             (case transform_all raw s of
                (s1, Some err) \<Rightarrow> \<lparr>state = s1, disk_after = d', fetched = calls, raised = Some err\<rparr>
              | (s1, None) \<Rightarrow>
                  (case growth_all (map fst INDICATORS) s1 of
                     (s2, Some err) \<Rightarrow>
                       \<lparr>state = s2, disk_after = d', fetched = calls, raised = Some err\<rparr>
                   | (s2, None) \<Rightarrow>
                       \<lparr>state = s2\<lparr>loaded := True\<rparr>, disk_after = d', fetched = calls,
                        raised = None\<rparr>))))"

definition invalidate_cache :: "collector \<Rightarrow> collector" where
  "invalidate_cache s = \<lparr>dataframes = [], country_names = [], loaded = False\<rparr>"

definition new_collector :: collector where
  "new_collector = \<lparr>dataframes = [], country_names = [], loaded = False\<rparr>"

text \<open>A sample environment: a window of 24 hours, a provider that answers the
  scenario's records for the CO2 indicator and fails for every other one.\<close>

definition sample_env :: env where
  "sample_env =
    \<lparr>max_age_hours = 24, read_clock = 1000, write_clock = 1001, write_outcome = Succeeds,
     fetch = (\<lambda>code. if code = ''EN.GHG.CO2.PC.CE.AR5'' then scenario_records else [])\<rparr>"

definition sample_data :: "(string \<times> raw_record list) list" where
  "sample_data = [(''co2_emissions'', scenario_records), (''gdp_per_capita'', [])]"


subsection \<open>The public data access\<close>

text \<open>
  The accessors read the collector. Each operation of theirs that can raise in Python
  is a branch here: \<^verbatim>\<open>df[iso3]\<close> raises \<open>KeyError\<close> on a missing column and
  \<^verbatim>\<open>.iloc[-1]\<close> raises \<open>IndexError\<close> on an empty Series. A Series that went through
  \<^verbatim>\<open>dropna()\<close> is a list of labels with their values. The keys \<^verbatim>\<open>str(int(year))\<close> of the
  nested results are kept as integers.
\<close>

definition and_then :: "py_error + 'a \<Rightarrow> ('a \<Rightarrow> py_error + 'b) \<Rightarrow> py_error + 'b" where
  "and_then r f = (case r of Inl e \<Rightarrow> Inl e | Inr x \<Rightarrow> f x)"

fun collect :: "(py_error + 'a) list \<Rightarrow> py_error + 'a list" where
  "collect [] = Inr []"
| "collect (Inl e # rs) = Inl e"
| "collect (Inr x # rs) = and_then (collect rs) (\<lambda>xs. Inr (x # xs))"

definition iloc_last :: "'a list \<Rightarrow> py_error + 'a" where
  "iloc_last xs = (if xs = [] then Inl IndexError else Inr (last xs))"

definition get_all_indicator_names :: "string list" where
  "get_all_indicator_names = map fst INDICATORS"

definition get_country_name :: "collector \<Rightarrow> string \<Rightarrow> string" where
  "get_country_name s c = (case map_of (country_names s) c of None \<Rightarrow> c | Some n \<Rightarrow> n)"

definition get_all_countries :: "collector \<Rightarrow> string list" where
  "get_all_countries s =
     sort (remdups (concat (map (\<lambda>(name, df). if is_empty df then [] else column_names df)
                                (dataframes s))))"

definition column :: "dataframe \<Rightarrow> string \<Rightarrow> py_error + int series" where
  "column df c =
    (case map_of (cols df) c of None \<Rightarrow> Inl KeyError | Some xs \<Rightarrow> Inr (zip (index df) xs))"

definition get_country_series :: "collector \<Rightarrow> string \<Rightarrow> string \<Rightarrow> py_error + (int \<times> real) list" where
  "get_country_series s c indicator =
    (let df = get_indicator_df s indicator
     in if is_empty df \<or> c \<notin> set (column_names df) then Inr []
        else and_then (column df c) (\<lambda>col. Inr (dropna col)))"

text \<open>\<^verbatim>\<open>col.dropna().iloc[-1] if not col.dropna().empty else np.nan\<close>\<close>

definition latest_of :: "real option list \<Rightarrow> py_error + real option" where
  "latest_of xs =
    (let present = List.map_filter id xs
     in if present \<noteq> [] then and_then (iloc_last present) (\<lambda>v. Inr (Some v)) else Inr None)"

definition get_latest_values :: "collector \<Rightarrow> string \<Rightarrow> py_error + string series" where
  "get_latest_values s indicator =
    (let df = get_indicator_df s indicator
     in if is_empty df then Inr []
        else collect (map (\<lambda>(c, xs). and_then (latest_of xs) (\<lambda>v. Inr (c, v))) (cols df)))"

text \<open>\<^verbatim>\<open>float(series.iloc[-1]) if not series.empty else None\<close>, rounded by \<open>r\<close>.\<close>

definition latest_value :: "(real \<Rightarrow> real) \<Rightarrow> (int \<times> real) list \<Rightarrow> py_error + real option" where
  "latest_value r series =
    (if series \<noteq> [] then and_then (iloc_last series) (\<lambda>(yr, v). Inr (Some (r v))) else Inr None)"

record snapshot_row =
  row_iso3 :: string
  row_country :: string
  row_values :: "(string \<times> real option) list"

definition build_master_snapshot :: "collector \<Rightarrow> py_error + snapshot_row list" where
  "build_master_snapshot s =
     collect (map (\<lambda>c.
        and_then
          (collect (map (\<lambda>(indicator, code).
              and_then (get_country_series s c indicator) (\<lambda>series.
              and_then (latest_value id series) (\<lambda>v. Inr (indicator, v)))) INDICATORS))
          (\<lambda>vs. Inr \<lparr>row_iso3 = c, row_country = get_country_name s c, row_values = vs\<rparr>))
       (get_all_countries s))"

definition get_cluster_names :: "string list" where
  "get_cluster_names = map fst CLUSTERS"

definition get_cluster_indicators :: "string \<Rightarrow> string list" where
  "get_cluster_indicators cluster =
    (case map_of CLUSTERS cluster of None \<Rightarrow> [] | Some (description, indicators) \<Rightarrow> map fst indicators)"

text \<open>The nested dicts \<^verbatim>\<open>data[year][indicator] = value\<close> of the cluster views.\<close>

definition add_point ::
  "string \<Rightarrow> int \<times> real \<Rightarrow> (int \<times> (string \<times> real) list) list \<Rightarrow> (int \<times> (string \<times> real) list) list" where
  "add_point indicator p data =
    (case p of (yr, v) \<Rightarrow>
       AList.update yr
         (AList.update indicator (py_round 4 v) (case map_of data yr of None \<Rightarrow> [] | Some m \<Rightarrow> m))
         data)"

definition all_series ::
  "collector \<Rightarrow> string \<Rightarrow> (string \<times> string) list \<Rightarrow> py_error + (string \<times> (int \<times> real) list) list" where
  "all_series s c indicators =
     collect (map (\<lambda>(indicator, code).
        and_then (get_country_series s c indicator) (\<lambda>series. Inr (indicator, series))) indicators)"

definition by_year :: "(string \<times> (int \<times> real) list) list \<Rightarrow> (int \<times> (string \<times> real) list) list" where
  "by_year sers = fold (\<lambda>(indicator, series). fold (add_point indicator) series) sers []"

definition get_cluster_data ::
  "collector \<Rightarrow> string \<Rightarrow> py_error + (string \<times> (int \<times> (string \<times> real) list) list) list" where
  "get_cluster_data s cluster_name =
    (case map_of CLUSTERS cluster_name of
       None \<Rightarrow> Inr []
     | Some (description, indicators) \<Rightarrow>
         and_then
           (collect (map (\<lambda>c. and_then (all_series s c indicators) (\<lambda>sers. Inr (c, sers)))
                         (get_all_countries s)))
           (\<lambda>rows. Inr (map (\<lambda>(c, sers). (c, by_year sers))
                            (filter (\<lambda>(c, sers). \<exists>(indicator, series) \<in> set sers. series \<noteq> []) rows))))"

definition get_country_cluster_profile ::
  "collector \<Rightarrow> string \<Rightarrow> py_error + (string \<times> (int \<times> (string \<times> real) list) list) list" where
  "get_country_cluster_profile s c =
     collect (map (\<lambda>(cluster_name, description, indicators).
        and_then (all_series s c indicators) (\<lambda>sers. Inr (cluster_name, by_year sers))) CLUSTERS)"

record indicator_profile =
  current :: "real option"
  history :: "(int \<times> real) list"
  growth_5y :: "real option"

record country_profile =
  profile_iso3 :: string
  profile_name :: string
  profile_data :: "(string \<times> (string \<times> indicator_profile) list) list"

definition indicator_profile_of :: "collector \<Rightarrow> string \<Rightarrow> string \<Rightarrow> py_error + indicator_profile" where
  "indicator_profile_of s c indicator =
     and_then (get_country_series s c indicator) (\<lambda>series.
     and_then (latest_value (py_round 4) series) (\<lambda>cur.
     and_then (get_country_series s c (indicator @ ''_growth_5y'')) (\<lambda>growth_series.
     and_then (latest_value (py_round 6) growth_series) (\<lambda>g.
       Inr \<lparr>current = cur, history = map (\<lambda>(yr, v). (yr, py_round 4 v)) series,
            growth_5y = g\<rparr>))))"

definition get_country_profile_v2 :: "collector \<Rightarrow> string \<Rightarrow> py_error + country_profile" where
  "get_country_profile_v2 s c =
     and_then
       (collect (map (\<lambda>(cluster_name, description, indicators).
          and_then
            (collect (map (\<lambda>(indicator, code).
                and_then (indicator_profile_of s c indicator) (\<lambda>p. Inr (indicator, p))) indicators))
            (\<lambda>ps. Inr (cluster_name, ps))) CLUSTERS))
       (\<lambda>data. Inr \<lparr>profile_iso3 = c, profile_name = get_country_name s c, profile_data = data\<rparr>)"

definition get_countries_meta :: "collector \<Rightarrow> (string \<times> string) list" where
  "get_countries_meta s = map (\<lambda>c. (c, get_country_name s c)) (get_all_countries s)"

definition get_indicators_meta :: "(string \<times> string \<times> string list) list" where
  "get_indicators_meta =
     map (\<lambda>(cluster_name, description, indicators). (cluster_name, description, map fst indicators))
         CLUSTERS"

text \<open>A country code is unknown to a collector when it is a column of none of its
  tables. The profile with no data: every indicator of every cluster, with null fields.\<close>

definition unknown_country :: "collector \<Rightarrow> string \<Rightarrow> bool" where
  "unknown_country s c \<longleftrightarrow> (\<forall>(name, df) \<in> set (dataframes s). c \<notin> set (column_names df))"

definition empty_profile_data :: "(string \<times> (string \<times> indicator_profile) list) list" where
  "empty_profile_data =
     map (\<lambda>(cluster_name, description, indicators).
            (cluster_name,
             map (\<lambda>(indicator, code). (indicator, \<lparr>current = None, history = [], growth_5y = None\<rparr>))
                 indicators))
         CLUSTERS"

text \<open>A sample collector: the table of the scenario under the CO2 indicator.\<close>

definition sample_collector :: collector where
  "sample_collector =
    \<lparr>dataframes = [(''co2_emissions'', scenario_frame)],
     country_names = [(''USA'', ''United States'')], loaded = True\<rparr>"

section \<open>Properties of the transform\<close>

lemma group_values_append:
  "group_values (rows @ rows') y c = group_values rows y c @ group_values rows' y c"
  by (simp add: group_values_def)

lemma scan_records_groups:
  "scan_records recs rows names = Inr (rows', names')
   \<Longrightarrow> group_values rows' y c = group_values rows y c @ surviving_values recs y c"
proof (induction recs arbitrary: rows names)
  case Nil
  then show ?case by (simp add: surviving_values_def)
next
  case (Cons r rs)
  show ?case
  proof (cases "countryiso3code r = [] \<or> countryiso3code r \<in> set WB_AGGREGATE_CODES")
    case True
    with Cons show ?thesis by (auto simp: surviving_values_def survives_def)
  next
    case False
    show ?thesis
    proof (cases "date r")
      case DateNone
      with False Cons show ?thesis by (auto simp: surviving_values_def survives_def)
    next
      case (DateYear y')
      with False Cons.prems have
        "scan_records rs (rows @ [(countryiso3code r, y', val r)])
           (add_name (countryiso3code r) (country r) names) = Inr (rows', names')"
        by simp
      from Cons.IH [OF this] DateYear False show ?thesis
        by (auto simp: surviving_values_def survives_def group_values_def)
    next
      case DateInvalid
      with False Cons.prems show ?thesis by simp
    qed
  qed
qed

lemma scan_records_agg:
  "scan_records recs [] names = Inr (rows, names')
   \<Longrightarrow> agg_first rows y c = first_valid (surviving_values recs y c)"
  using scan_records_groups [of recs "[]" names rows names' y c]
  by (simp add: agg_first_def group_values_def)

lemma first_valid_Some_mem: "first_valid vs = Some v \<Longrightarrow> Some v \<in> set vs"
  by (induction vs rule: first_valid.induct) auto

lemma first_valid_None_iff: "first_valid vs = None \<longleftrightarrow> (\<forall>v \<in> set vs. v = None)"
  by (induction vs rule: first_valid.induct) auto

lemma agg_first_in_rows:
  "agg_first rows y c = Some v \<Longrightarrow> (c, y, Some v) \<in> set rows"
  by (auto simp: agg_first_def group_values_def dest!: first_valid_Some_mem)

lemma kept_groups_iff:
  "(y, c) \<in> set (kept_groups rows) \<longleftrightarrow> agg_first rows y c \<noteq> None"
proof
  assume "agg_first rows y c \<noteq> None"
  then obtain v where "agg_first rows y c = Some v" by auto
  from agg_first_in_rows [OF this] have "(y, c) \<in> (\<lambda>(c, y, v). (y, c)) ` set rows"
    by force
  with \<open>agg_first rows y c \<noteq> None\<close> show "(y, c) \<in> set (kept_groups rows)"
    by (simp add: kept_groups_def)
qed (simp add: kept_groups_def)

lemma index_pivot: "set (index (pivot_table rows)) = fst ` set (kept_groups rows)"
  by (simp add: pivot_table_def Let_def)

lemma index_pivot_sorted: "sorted (index (pivot_table rows)) \<and> distinct (index (pivot_table rows))"
  by (simp add: pivot_table_def Let_def)

lemma names_pivot: "set (column_names (pivot_table rows)) = snd ` set (kept_groups rows)"
  by (simp add: pivot_table_def Let_def column_names_def comp_def)

lemma names_pivot_sorted:
  "sorted (column_names (pivot_table rows)) \<and> distinct (column_names (pivot_table rows))"
  by (simp add: pivot_table_def Let_def column_names_def comp_def)

lemma map_of_tabulate:
  "map_of (map (\<lambda>c. (c, f c)) cs) c = (if c \<in> set cs then Some (f c) else None)"
  by (induction cs) auto

lemma position_None_iff: "position x ys = None \<longleftrightarrow> x \<notin> set ys"
  by (induction ys) auto

lemma position_Some: "position x ys = Some i \<Longrightarrow> i < length ys \<and> ys ! i = x"
  by (induction ys arbitrary: i) (auto split: if_splits)

lemma position_nth: "distinct ys \<Longrightarrow> i < length ys \<Longrightarrow> position (ys ! i) ys = Some i"
proof (induction ys arbitrary: i)
  case Nil
  then show ?case by simp
next
  case (Cons y ys)
  then show ?case by (cases i) auto
qed

lemma cell_pivot: "cell (pivot_table rows) y c = agg_first rows y c"
proof (cases "agg_first rows y c")
  case None
  show ?thesis
  proof (cases "position y (index (pivot_table rows))")
    case N: None
    then show ?thesis using None by (simp add: cell_def split: option.splits)
  next
    case (Some i)
    from position_Some [OF this] show ?thesis using None Some
      by (auto simp: cell_def pivot_table_def Let_def map_of_tabulate split: option.splits)
  qed
next
  case (Some v)
  then have k: "(y, c) \<in> set (kept_groups rows)" by (simp add: kept_groups_iff)
  then have c: "c \<in> snd ` set (kept_groups rows)" and y: "y \<in> fst ` set (kept_groups rows)"
    by force+
  from y have "position y (index (pivot_table rows)) \<noteq> None"
    by (simp add: position_None_iff index_pivot)
  then obtain i where i: "position y (index (pivot_table rows)) = Some i" by auto
  from position_Some [OF i] c i show ?thesis
    by (auto simp: cell_def pivot_table_def Let_def map_of_tabulate)
qed

subsection \<open>The interpolation of one column\<close>

lemma length_interp_from: "length (interp_from L prev xs) = length xs"
  by (induction L prev xs rule: interp_from.induct) auto

lemma nth_interp_from_Some:
  "i < length xs \<Longrightarrow> xs ! i = Some v \<Longrightarrow> interp_from L prev xs ! i = Some v"
proof (induction L prev xs arbitrary: i rule: interp_from.induct)
  case (1 limit prev)
  then show ?case by simp
next
  case (2 limit prev v xs)
  then show ?case by (cases i) simp_all
next
  case (3 limit xs)
  then show ?case by (cases i) simp_all
next
  case (4 limit a d xs)
  then show ?case by (cases i) simp_all
qed

lemma nth_interp_from_None:
  "i < length xs \<Longrightarrow> xs ! i = None \<Longrightarrow> carry prev (take i xs) = None
   \<Longrightarrow> interp_from L prev xs ! i = None"
proof (induction L prev xs arbitrary: i rule: interp_from.induct)
  case (1 limit prev)
  then show ?case by simp
next
  case (2 limit prev v xs)
  then show ?case by (cases i) simp_all
next
  case (3 limit xs)
  then show ?case by (cases i) simp_all
next
  case (4 limit a d xs)
  then show ?case by (cases i) simp_all
qed

lemma nth_interp_from_fill:
  "i < length xs \<Longrightarrow> xs ! i = None \<Longrightarrow> carry prev (take i xs) = Some (a, d)
   \<Longrightarrow> interp_from L prev xs ! i =
        (if Suc d \<le> L
         then Some (case next_valid (drop (Suc i) xs) of
                      None \<Rightarrow> a
                    | Some (k, b) \<Rightarrow> a + (b - a) * real (Suc d) / real (Suc d + Suc k))
         else None)"
proof (induction L prev xs arbitrary: i rule: interp_from.induct)
  case (1 limit prev)
  then show ?case by simp
next
  case (2 limit prev v xs)
  then show ?case by (cases i) simp_all
next
  case (3 limit xs)
  then show ?case by (cases i) simp_all
next
  case (4 limit a' d' xs)
  then show ?case by (cases i) simp_all
qed

lemma carry_snoc:
  "carry prev (ys @ [x]) =
    (case x of Some v \<Rightarrow> Some (v, 0)
     | None \<Rightarrow> map_option (\<lambda>(a, d). (a, Suc d)) (carry prev ys))"
proof (induction prev ys rule: carry.induct)
  case (1 prev)
  then show ?case by (cases prev; cases x) auto
qed (simp_all split: option.splits)

lemma carry_None_iff: "carry None ys = None \<longleftrightarrow> (\<forall>v \<in> set ys. v = None)"
proof (induction ys rule: rev_induct)
  case Nil
  then show ?case by simp
next
  case (snoc x xs)
  then show ?case by (cases x) (simp_all add: carry_snoc)
qed

lemma carry_decomp:
  "carry None ys = Some (a, d) \<Longrightarrow> \<exists>pre. ys = pre @ Some a # replicate d None"
proof (induction ys arbitrary: d rule: rev_induct)
  case Nil
  then show ?case by simp
next
  case (snoc x xs)
  show ?case
  proof (cases x)
    case None
    with snoc.prems obtain d' where d': "carry None xs = Some (a, d')" "d = Suc d'"
      by (auto simp: carry_snoc)
    from snoc.IH [OF d'(1)] obtain pre where "xs = pre @ Some a # replicate d' None" ..
    then have "xs @ [x] = pre @ Some a # replicate d None"
      using None d'(2) by (simp add: replicate_append_same)
    then show ?thesis ..
  next
    case (Some v)
    with snoc.prems have "v = a" "d = 0" by (simp_all add: carry_snoc)
    then have "xs @ [x] = xs @ Some a # replicate d None" using Some by simp
    then show ?thesis ..
  qed
qed

lemma carry_replicate: "carry (Some (a, e)) (replicate d None) = Some (a, e + d)"
  by (induction d arbitrary: e) simp_all

lemma carry_append: "carry prev (xs @ ys) = carry (carry prev xs) ys"
  by (induction prev xs rule: carry.induct) simp_all

lemma carry_compose: "carry prev (pre @ Some a # replicate d None) = Some (a, d)"
  by (simp add: carry_append carry_replicate)

lemma next_valid_None_iff: "next_valid ys = None \<longleftrightarrow> (\<forall>v \<in> set ys. v = None)"
  by (induction ys rule: next_valid.induct) auto

lemma next_valid_compose: "next_valid (replicate k None @ Some b # post) = Some (k, b)"
  by (induction k) simp_all

lemma take_decomp:
  assumes "j < i" "i \<le> length xs" "xs ! j = Some a" "\<forall>m. j < m \<and> m < i \<longrightarrow> xs ! m = None"
  shows "take i xs = take j xs @ Some a # replicate (i - j - 1) None"
proof (rule nth_equalityI)
  show "length (take i xs) = length (take j xs @ Some a # replicate (i - j - 1) None)"
    using assms by simp
next
  fix m assume "m < length (take i xs)"
  then have m: "m < i" by simp
  consider "m < j" | "m = j" | "j < m" by linarith
  then show "take i xs ! m = (take j xs @ Some a # replicate (i - j - 1) None) ! m"
  proof cases
    case 1
    then show ?thesis using m assms by (simp add: nth_append)
  next
    case 2
    then show ?thesis using m assms by (simp add: nth_append)
  next
    case 3
    then have "xs ! m = None" using m assms by simp
    moreover have "(take j xs @ Some a # replicate (i - j - 1) None) ! m = None"
      using 3 m assms by (simp add: nth_append nth_Cons')
    ultimately show ?thesis using m by simp
  qed
qed

lemma drop_decomp:
  assumes "i < k" "k < length xs" "xs ! k = Some b" "\<forall>m. i < m \<and> m < k \<longrightarrow> xs ! m = None"
  shows "drop (Suc i) xs = replicate (k - i - 1) None @ Some b # drop (Suc k) xs"
proof -
  have "take (k - i - 1) (drop (Suc i) xs) = replicate (k - i - 1) None"
  proof (rule nth_equalityI)
    show "length (take (k - i - 1) (drop (Suc i) xs)) = length (replicate (k - i - 1) None)"
      using assms by simp
  next
    fix m assume "m < length (take (k - i - 1) (drop (Suc i) xs))"
    then have m: "m < k - i - 1" by simp
    then have "xs ! (Suc i + m) = None" using assms by simp
    then show "take (k - i - 1) (drop (Suc i) xs) ! m = replicate (k - i - 1) None ! m"
      using m assms by simp
  qed
  moreover have "drop (k - i - 1) (drop (Suc i) xs) = drop k xs"
    using assms by simp
  moreover have "drop k xs = Some b # drop (Suc k) xs"
    using assms by (simp add: Cons_nth_drop_Suc [symmetric])
  ultimately show ?thesis
    by (metis append_take_drop_id)
qed

lemma interp_filled_iff:
  assumes "i < length xs" "xs ! i = None"
  shows "interp_from L None xs ! i \<noteq> None \<longleftrightarrow> (\<exists>j<i. i - j \<le> L \<and> xs ! j \<noteq> None)"
proof (cases "carry None (take i xs)")
  case None
  then have all: "\<forall>v \<in> set (take i xs). v = None"
    by (simp add: carry_None_iff)
  have "\<forall>j<i. xs ! j = None"
  proof (intro allI impI)
    fix j assume "j < i"
    then have "take i xs ! j \<in> set (take i xs)" using assms(1) by (intro nth_mem) simp
    with all \<open>j < i\<close> show "xs ! j = None" by simp
  qed
  moreover have "interp_from L None xs ! i = None"
    using nth_interp_from_None [OF assms None] .
  ultimately show ?thesis by simp
next
  case (Some p)
  obtain a d where p: "p = (a, d)" by (cases p)
  from carry_decomp [OF Some [unfolded p]] obtain pre
    where pre: "take i xs = pre @ Some a # replicate d None" ..
  then have "length (take i xs) = length pre + Suc d" by simp
  then have len: "i = length pre + Suc d" using assms(1) by simp
  have at: "\<And>m. m < i \<Longrightarrow> xs ! m = (pre @ Some a # replicate d None) ! m"
    using pre by (metis nth_take)
  have val: "interp_from L None xs ! i =
        (if Suc d \<le> L
         then Some (case next_valid (drop (Suc i) xs) of
                      None \<Rightarrow> a
                    | Some (k, b) \<Rightarrow> a + (b - a) * real (Suc d) / real (Suc d + Suc k))
         else None)"
    using nth_interp_from_fill [OF assms Some [unfolded p]] .
  show ?thesis
  proof
    assume "interp_from L None xs ! i \<noteq> None"
    with val have "Suc d \<le> L" by (simp split: if_splits)
    moreover have "xs ! length pre = Some a" using at [of "length pre"] len by simp
    ultimately show "\<exists>j<i. i - j \<le> L \<and> xs ! j \<noteq> None"
      using len by (intro exI [of _ "length pre"]) simp
  next
    assume "\<exists>j<i. i - j \<le> L \<and> xs ! j \<noteq> None"
    then obtain j where j: "j < i" "i - j \<le> L" "xs ! j \<noteq> None" by blast
    have "j \<le> length pre"
    proof (rule ccontr)
      assume "\<not> j \<le> length pre"
      then have "length pre < j" by simp
      then have "(pre @ Some a # replicate d None) ! j = None"
        using j(1) len by (simp add: nth_append nth_Cons')
      with at [OF j(1)] j(3) show False by simp
    qed
    then have "Suc d \<le> L" using len j by simp
    with val show "interp_from L None xs ! i \<noteq> None" by simp
  qed
qed

lemma interp_value_inner:
  assumes "j < i" "i < k" "k < length xs" "i - j \<le> L"
    and "xs ! j = Some a" "xs ! k = Some b" "\<forall>m. j < m \<and> m < k \<longrightarrow> xs ! m = None"
  shows "interp_from L None xs ! i = Some (a + (b - a) * real (i - j) / real (k - j))"
proof -
  have i: "i < length xs" "xs ! i = None" using assms by simp_all
  have "take i xs = take j xs @ Some a # replicate (i - j - 1) None"
    using assms by (intro take_decomp) simp_all
  then have c: "carry None (take i xs) = Some (a, i - j - 1)"
    by (simp add: carry_compose)
  have "drop (Suc i) xs = replicate (k - i - 1) None @ Some b # drop (Suc k) xs"
    using assms by (intro drop_decomp) simp_all
  then have n: "next_valid (drop (Suc i) xs) = Some (k - i - 1, b)"
    by (simp add: next_valid_compose)
  have "Suc (i - j - 1) = i - j" "Suc (i - j - 1) + Suc (k - i - 1) = k - j"
    using assms by simp_all
  then show ?thesis
    using nth_interp_from_fill [OF i c, of L] n assms(4) by simp
qed

lemma interp_value_tail:
  assumes "j < i" "i < length xs" "i - j \<le> L"
    and "xs ! j = Some a" "\<forall>m. j < m \<and> m < length xs \<longrightarrow> xs ! m = None"
  shows "interp_from L None xs ! i = Some a"
proof -
  have i: "i < length xs" "xs ! i = None" using assms by simp_all
  have "take i xs = take j xs @ Some a # replicate (i - j - 1) None"
    using assms by (intro take_decomp) simp_all
  then have c: "carry None (take i xs) = Some (a, i - j - 1)"
    by (simp add: carry_compose)
  have "\<forall>v \<in> set (drop (Suc i) xs). v = None"
    using assms by (auto simp: in_set_conv_nth)
  then have n: "next_valid (drop (Suc i) xs) = None"
    by (simp add: next_valid_None_iff)
  have "Suc (i - j - 1) = i - j" using assms by simp
  then show ?thesis
    using nth_interp_from_fill [OF i c, of L] n assms(3) by simp
qed

subsection \<open>The table of the transform\<close>

lemmas transform_eval =
  records_to_dataframe_def mk_record_def WB_AGGREGATE_CODES_def add_name_def country_name_of_def
  pivot_table_def kept_groups_def agg_first_def group_values_def interpolate_def empty_frame_def


lemma gap_result:
  "records_to_dataframe gap_records = Inr (gap_frame, [(''AAA'', ''A''), (''BBB'', ''B'')])"
  by (simp add: gap_records_def gap_frame_def transform_eval)

lemma duplicate_result:
  "records_to_dataframe duplicate_records = Inr (duplicate_frame, [(''USA'', ''United States'')])"
  by (simp add: duplicate_records_def duplicate_frame_def transform_eval)

lemma scenario_result:
  "records_to_dataframe scenario_records = Inr (scenario_frame, [(''USA'', ''United States'')])"
  by (simp add: scenario_records_def scenario_frame_def transform_eval)

lemma scenario_two_result:
  "records_to_dataframe scenario_two_countries =
     Inr (scenario_two_frame, [(''USA'', ''United States''), (''KOR'', ''Korea, Rep.'')])"
  by (simp add: scenario_two_countries_def scenario_records_def scenario_two_frame_def
      transform_eval)

lemma biennial_result:
  "records_to_dataframe biennial_records = Inr (biennial_frame, [(''USA'', ''United States'')])"
  by (simp add: biennial_records_def biennial_frame_def transform_eval)

lemma pivot_table_Nil: "pivot_table [] = empty_frame"
  by (simp add: pivot_table_def kept_groups_def empty_frame_def)

lemma interpolate_empty: "interpolate L empty_frame = empty_frame"
  by (simp add: interpolate_def empty_frame_def)

lemma records_to_dataframe_Inr:
  assumes "records_to_dataframe records = Inr (df, names)"
  shows "\<exists>rows. scan_records records [] [] = Inr (rows, names) \<and>
                df = interpolate 3 (pivot_table rows)"
proof (cases "records = []")
  case True
  with assms show ?thesis
    by (simp add: records_to_dataframe_def pivot_table_Nil interpolate_empty)
next
  case False
  with assms obtain rows where rows: "scan_records records [] [] = Inr (rows, names)"
    and df: "df = (if rows = [] then empty_frame else interpolate 3 (pivot_table rows))"
    by (auto simp: records_to_dataframe_def split: sum.splits if_splits)
  from df have "df = interpolate 3 (pivot_table rows)"
    by (cases "rows = []") (simp_all add: pivot_table_Nil interpolate_empty)
  with rows show ?thesis by blast
qed

lemma index_interpolate: "index (interpolate L df) = index df"
  by (simp add: interpolate_def)

lemma column_names_interpolate: "column_names (interpolate L df) = column_names df"
  by (simp add: interpolate_def column_names_def comp_def case_prod_unfold)

lemma cols_interpolate_pivot:
  assumes "(c, col) \<in> set (cols (interpolate L (pivot_table rows)))"
  shows "col = interp_from L None (map (\<lambda>y. agg_first rows y c) (index (pivot_table rows)))"
    and "c \<in> snd ` set (kept_groups rows)"
  using assms by (auto simp: interpolate_def pivot_table_def Let_def)

lemma map_of_map_snd:
  "map_of (map (\<lambda>(c, xs). (c, f xs)) ps) c = map_option f (map_of ps c)"
  by (induction ps) auto

lemma map_of_interpolate:
  "map_of (cols (interpolate L df)) c = map_option (interp_from L None) (map_of (cols df) c)"
  by (simp add: interpolate_def map_of_map_snd)

lemma cell_interpolate_observed:
  assumes "cell df y c = Some v"
  shows "cell (interpolate L df) y c = Some v"
proof -
  from assms obtain xs i where xs: "map_of (cols df) c = Some xs"
    and i: "position y (index df) = Some i" and v: "i < length xs" "xs ! i = Some v"
    by (auto simp: cell_def split: option.splits if_splits)
  from v have "interp_from L None xs ! i = Some v" by (rule nth_interp_from_Some)
  with xs i v(1) show ?thesis
    by (simp add: cell_def map_of_interpolate index_interpolate length_interp_from)
qed

subsection \<open>Duplicate records of one year and country\<close>

text \<open>
  C2 (as the code has it). When several surviving records share a (year, country code)
  pair, the cell of the table holds the first \<^emph>\<open>non-null\<close> value among them, in input
  order: a null value is skipped, also when it belongs to the first record. The table is a
  function of the record list, so it is determined by the input order.
\<close>

theorem pivot_keeps_first_non_null:
  assumes "records_to_dataframe records = Inr (df, names)"
    and "first_valid (surviving_values records y c) = Some v"
  shows "cell df y c = Some v"
proof -
  from records_to_dataframe_Inr [OF assms(1)] obtain rows
    where rows: "scan_records records [] [] = Inr (rows, names)"
      and df: "df = interpolate 3 (pivot_table rows)" by blast
  have "agg_first rows y c = Some v"
    using scan_records_agg [OF rows] assms(2) by simp
  then have "cell (pivot_table rows) y c = Some v" by (simp add: cell_pivot)
  then show ?thesis unfolding df by (rule cell_interpolate_observed)
qed

theorem pivot_keeps_first_non_null_witness:
  "records_to_dataframe duplicate_records = Inr (duplicate_frame, [(''USA'', ''United States'')]) \<and>
   first_valid (surviving_values duplicate_records 2000 ''USA'') = Some 7 \<and>
   cell duplicate_frame 2000 ''USA'' = Some 7"
proof -
  note r = duplicate_result
  have f: "first_valid (surviving_values duplicate_records 2000 ''USA'') = Some 7"
    by (simp add: duplicate_records_def surviving_values_def survives_def mk_record_def
        WB_AGGREGATE_CODES_def)
  from pivot_keeps_first_non_null [OF r f] r f show ?thesis by simp
qed

text \<open>
  C2 as stated fails: the first record of (2000, USA) has a null value, and the cell holds
  7, the value of the second record.
\<close>

theorem first_record_value_not_kept:
  "records_to_dataframe duplicate_records = Inr (duplicate_frame, [(''USA'', ''United States'')]) \<and>
   val (duplicate_records ! 0) = None \<and>
   cell duplicate_frame 2000 ''USA'' = Some 7"
  using duplicate_result by (simp add: duplicate_records_def duplicate_frame_def mk_record_def cell_def)

subsection \<open>Interpolation\<close>

lemma transform_column:
  assumes "records_to_dataframe records = Inr (df, names)" and "(c, col) \<in> set (cols df)"
  shows "col = interp_from 3 None (map (observed records df c) [0..<length (index df)])"
proof -
  from records_to_dataframe_Inr [OF assms(1)] obtain rows
    where rows: "scan_records records [] [] = Inr (rows, names)"
      and df: "df = interpolate 3 (pivot_table rows)" by blast
  have idx: "index df = index (pivot_table rows)" by (simp add: df index_interpolate)
  have "col = interp_from 3 None (map (\<lambda>y. agg_first rows y c) (index (pivot_table rows)))"
    using assms(2) unfolding df by (rule cols_interpolate_pivot)
  moreover have "map (\<lambda>y. agg_first rows y c) (index df) =
      map (observed records df c) [0..<length (index df)]"
    by (rule nth_equalityI) (simp_all add: observed_def scan_records_agg [OF rows])
  ultimately show ?thesis by (simp add: idx)
qed

text \<open>
  C1 (as the code has it). The transform interpolates each country column on its own,
  down the rows of the table (the rows are the years in which some country has a value).
  Observed cells are unchanged. A missing cell is filled exactly when the column has an
  observed value at most 3 rows above it; so the first 3 cells of a longer run of missing
  cells are filled too, and no cell above the first observed value of a column is ever
  filled. Between two observed values the filled value is linear in the row position;
  below the last observed value of the column it repeats that value.
\<close>

theorem interpolation_fills_three_rows_forward:
  assumes "records_to_dataframe records = Inr (df, names)"
    and "(c, col) \<in> set (cols df)" and "i < length (index df)"
  shows "length col = length (index df) \<and>
    (\<forall>v. observed records df c i = Some v \<longrightarrow> col ! i = Some v) \<and>
    (observed records df c i = None \<longrightarrow>
       (col ! i \<noteq> None \<longleftrightarrow> (\<exists>j<i. i - j \<le> 3 \<and> observed records df c j \<noteq> None))) \<and>
    (\<forall>j a. j < i \<and> i - j \<le> 3 \<and> observed records df c j = Some a \<and>
           (\<forall>m. j < m \<and> m \<le> i \<longrightarrow> observed records df c m = None) \<longrightarrow>
       (\<forall>k b. i < k \<and> k < length (index df) \<and> observed records df c k = Some b \<and>
              (\<forall>m. i < m \<and> m < k \<longrightarrow> observed records df c m = None) \<longrightarrow>
          col ! i = Some (a + (b - a) * real (i - j) / real (k - j))) \<and>
       ((\<forall>m. i < m \<and> m < length (index df) \<longrightarrow> observed records df c m = None) \<longrightarrow>
          col ! i = Some a))"
proof -
  define n where "n = length (index df)"
  define xs where "xs = map (observed records df c) [0..<n]"
  have col: "col = interp_from 3 None xs"
    unfolding xs_def n_def using assms(1,2) by (rule transform_column)
  have len: "length xs = n" by (simp add: xs_def)
  have nth: "\<And>m. m < n \<Longrightarrow> xs ! m = observed records df c m" by (simp add: xs_def)
  have i: "i < n" using assms(3) by (simp add: n_def)
  have c1: "length col = length (index df)"
    by (simp add: col length_interp_from len n_def)
  have c2: "\<forall>v. observed records df c i = Some v \<longrightarrow> col ! i = Some v"
    using i by (auto simp: col len nth intro: nth_interp_from_Some)
  have c3: "observed records df c i = None \<longrightarrow>
       (col ! i \<noteq> None \<longleftrightarrow> (\<exists>j<i. i - j \<le> 3 \<and> observed records df c j \<noteq> None))"
  proof
    assume "observed records df c i = None"
    then have "xs ! i = None" using i by (simp add: nth)
    with i have "interp_from 3 None xs ! i \<noteq> None \<longleftrightarrow> (\<exists>j<i. i - j \<le> 3 \<and> xs ! j \<noteq> None)"
      by (intro interp_filled_iff) (simp_all add: len)
    also have "\<dots> \<longleftrightarrow> (\<exists>j<i. i - j \<le> 3 \<and> observed records df c j \<noteq> None)"
      using i by (auto simp: nth)
    finally show "col ! i \<noteq> None \<longleftrightarrow> (\<exists>j<i. i - j \<le> 3 \<and> observed records df c j \<noteq> None)"
      by (simp add: col)
  qed
  have c4: "\<forall>j a. j < i \<and> i - j \<le> 3 \<and> observed records df c j = Some a \<and>
           (\<forall>m. j < m \<and> m \<le> i \<longrightarrow> observed records df c m = None) \<longrightarrow>
       (\<forall>k b. i < k \<and> k < length (index df) \<and> observed records df c k = Some b \<and>
              (\<forall>m. i < m \<and> m < k \<longrightarrow> observed records df c m = None) \<longrightarrow>
          col ! i = Some (a + (b - a) * real (i - j) / real (k - j))) \<and>
       ((\<forall>m. i < m \<and> m < length (index df) \<longrightarrow> observed records df c m = None) \<longrightarrow>
          col ! i = Some a)"
  proof (intro allI impI conjI; (elim conjE)?)
    fix j a k b
    assume j: "j < i" "i - j \<le> 3" "observed records df c j = Some a"
      and gap: "\<forall>m. j < m \<and> m \<le> i \<longrightarrow> observed records df c m = None"
      and k: "i < k" "k < length (index df)" "observed records df c k = Some b"
      and gap': "\<forall>m. i < m \<and> m < k \<longrightarrow> observed records df c m = None"
    have kn: "k < n" using k by (simp add: n_def)
    have "\<forall>m. j < m \<and> m < k \<longrightarrow> xs ! m = None"
    proof (intro allI impI)
      fix m assume m: "j < m \<and> m < k"
      then have "observed records df c m = None"
        using gap gap' by (cases "m \<le> i") auto
      with m kn show "xs ! m = None" by (simp add: nth)
    qed
    moreover have "xs ! j = Some a" "xs ! k = Some b" using j k i kn by (simp_all add: nth)
    ultimately show "col ! i = Some (a + (b - a) * real (i - j) / real (k - j))"
      unfolding col using j(1,2) k(1) kn
      by (intro interp_value_inner) (simp_all add: len)
  next
    fix j a
    assume j: "j < i" "i - j \<le> 3" "observed records df c j = Some a"
      and gap: "\<forall>m. j < m \<and> m \<le> i \<longrightarrow> observed records df c m = None"
      and tail: "\<forall>m. i < m \<and> m < length (index df) \<longrightarrow> observed records df c m = None"
    have "\<forall>m. j < m \<and> m < length xs \<longrightarrow> xs ! m = None"
    proof (intro allI impI)
      fix m assume m: "j < m \<and> m < length xs"
      then have "observed records df c m = None"
        using gap tail by (cases "m \<le> i") (auto simp: len n_def)
      with m show "xs ! m = None" by (simp add: nth len)
    qed
    moreover have "xs ! j = Some a" using j i by (simp add: nth)
    ultimately show "col ! i = Some a"
      unfolding col using j(1,2) i
      by (intro interp_value_tail [where j = j]) (simp_all add: len)
  qed
  from c1 c2 c3 c4 show ?thesis by blast
qed

theorem interpolation_fills_three_rows_forward_witness:
  "records_to_dataframe gap_records = Inr (gap_frame, [(''AAA'', ''A''), (''BBB'', ''B'')]) \<and>
   (''AAA'', [Some 1, Some 2, Some 3, Some 4, None, Some 6, Some 6]) \<in> set (cols gap_frame) \<and>
   2 < length (index gap_frame) \<and>
   observed gap_records gap_frame ''AAA'' 0 = Some 1 \<and>
   observed gap_records gap_frame ''AAA'' 2 = None \<and>
   [Some 1, Some 2, Some 3, Some 4, None, Some 6, Some (6::real)] ! 2 \<noteq> None"
proof -
  note r = gap_result
  have m: "(''AAA'', [Some 1, Some 2, Some 3, Some 4, None, Some 6, Some 6]) \<in> set (cols gap_frame)"
    by (simp add: gap_frame_def)
  have l: "2 < length (index gap_frame)" by (simp add: gap_frame_def)
  have o: "observed gap_records gap_frame ''AAA'' 0 = Some 1"
    "observed gap_records gap_frame ''AAA'' 2 = None"
    by (simp_all add: observed_def gap_frame_def gap_records_def surviving_values_def
        survives_def mk_record_def WB_AGGREGATE_CODES_def)
  have "\<exists>j<2. 2 - j \<le> 3 \<and> observed gap_records gap_frame ''AAA'' j \<noteq> None"
    using o(1) by (intro exI [of _ 0]) simp
  with interpolation_fills_three_rows_forward [OF r m l] o(2)
  have "[Some 1, Some 2, Some 3, Some 4, None, Some 6, Some (6::real)] ! 2 \<noteq> None"
    by blast
  with r m l o show ?thesis by blast
qed

text \<open>
  C1 as stated fails. Country AAA has values in 2000 and 2005 only. The four missing
  years 2001 to 2004 are a gap wider than 3, and 2001, 2002 and 2003 are filled all the
  same; 2006 lies after the last observed year of the column and is filled with the value
  of 2005.
\<close>

theorem long_gap_partly_filled_and_tail_filled:
  "records_to_dataframe gap_records = Inr (gap_frame, [(''AAA'', ''A''), (''BBB'', ''B'')]) \<and>
   first_valid (surviving_values gap_records 2001 ''AAA'') = None \<and>
   first_valid (surviving_values gap_records 2002 ''AAA'') = None \<and>
   first_valid (surviving_values gap_records 2003 ''AAA'') = None \<and>
   first_valid (surviving_values gap_records 2004 ''AAA'') = None \<and>
   first_valid (surviving_values gap_records 2006 ''AAA'') = None \<and>
   cell gap_frame 2001 ''AAA'' = Some 2 \<and>
   cell gap_frame 2002 ''AAA'' = Some 3 \<and>
   cell gap_frame 2003 ''AAA'' = Some 4 \<and>
   cell gap_frame 2004 ''AAA'' = None \<and>
   cell gap_frame 2005 ''AAA'' = Some 6 \<and>
   cell gap_frame 2006 ''AAA'' = Some 6"
  using gap_result
  by (simp add: gap_records_def gap_frame_def mk_record_def WB_AGGREGATE_CODES_def cell_def
      surviving_values_def survives_def)

subsection \<open>Aggregate codes and the scenario of the specification\<close>

lemma surviving_value_record:
  assumes "v \<in> set (surviving_values records y c)"
  shows "\<exists>r \<in> set records. survives r \<and> countryiso3code r = c \<and> date r = DateYear y \<and> val r = v"
  using assms by (auto simp: surviving_values_def)

lemma transform_axes:
  assumes "records_to_dataframe records = Inr (df, names)"
  shows "c \<in> set (column_names df) \<Longrightarrow> \<exists>r \<in> set records. survives r \<and> countryiso3code r = c"
    and "y \<in> set (index df) \<Longrightarrow> \<exists>r \<in> set records. survives r \<and> date r = DateYear y"
proof -
  from records_to_dataframe_Inr [OF assms] obtain rows
    where rows: "scan_records records [] [] = Inr (rows, names)"
      and df: "df = interpolate 3 (pivot_table rows)" by blast
  have kept: "\<And>y c. (y, c) \<in> set (kept_groups rows) \<Longrightarrow>
      \<exists>r \<in> set records. survives r \<and> countryiso3code r = c \<and> date r = DateYear y"
  proof -
    fix y c assume "(y, c) \<in> set (kept_groups rows)"
    then obtain v where "agg_first rows y c = Some v" by (auto simp: kept_groups_iff)
    then have "first_valid (surviving_values records y c) = Some v"
      by (simp add: scan_records_agg [OF rows])
    then have "Some v \<in> set (surviving_values records y c)" by (rule first_valid_Some_mem)
    from surviving_value_record [OF this]
    show "\<exists>r \<in> set records. survives r \<and> countryiso3code r = c \<and> date r = DateYear y"
      by blast
  qed
  {
    assume "c \<in> set (column_names df)"
    then have "c \<in> snd ` set (kept_groups rows)"
      by (simp add: df column_names_interpolate names_pivot)
    then obtain y where "(y, c) \<in> set (kept_groups rows)" by force
    from kept [OF this] show "\<exists>r \<in> set records. survives r \<and> countryiso3code r = c" by blast
  }
  {
    assume "y \<in> set (index df)"
    then have "y \<in> fst ` set (kept_groups rows)"
      by (simp add: df index_interpolate index_pivot)
    then obtain c where "(y, c) \<in> set (kept_groups rows)" by force
    from kept [OF this] show "\<exists>r \<in> set records. survives r \<and> date r = DateYear y" by blast
  }
qed

lemma growth_axes:
  assumes "compute_growth_rate df w = Inr g"
  shows "set (column_names g) \<subseteq> set (column_names df)" and "set (index g) \<subseteq> set (index df)"
  using assms
  by (force simp: compute_growth_rate_def empty_frame_def column_names_def split: if_splits)+

text \<open>
  C10 (as the code has it). A record with a denylisted or empty country code, or with no
  year, is discarded by the transform: every column of an indicator table, and of the
  growth table derived from it, is the code of a surviving record, so it is neither empty
  nor denylisted, and every row is the year of a surviving record. In the scenario the WLD
  record is dropped and USA keeps 2000 = 10 and 2002 = 20; the table has no row for 2001,
  because no surviving record has a value in that year, so nothing is interpolated there.
  When another country has a value in 2001 the row exists and USA 2001 is interpolated
  to 15.
\<close>

theorem no_aggregate_code_in_tables:
  assumes "records_to_dataframe records = Inr (df, names)"
    and "compute_growth_rate df 5 = Inr g"
  shows "(\<forall>c \<in> set (column_names df) \<union> set (column_names g).
            c \<noteq> [] \<and> c \<notin> set WB_AGGREGATE_CODES \<and>
            (\<exists>r \<in> set records. survives r \<and> countryiso3code r = c)) \<and>
         (\<forall>y \<in> set (index df) \<union> set (index g).
            \<exists>r \<in> set records. survives r \<and> date r = DateYear y) \<and>
         records_to_dataframe scenario_records =
            Inr (scenario_frame, [(''USA'', ''United States'')]) \<and>
         index scenario_frame = [2000, 2002] \<and>
         cell scenario_frame 2000 ''USA'' = Some 10 \<and>
         cell scenario_frame 2002 ''USA'' = Some 20 \<and>
         records_to_dataframe scenario_two_countries =
            Inr (scenario_two_frame, [(''USA'', ''United States''), (''KOR'', ''Korea, Rep.'')]) \<and>
         cell scenario_two_frame 2001 ''USA'' = Some 15"
proof -
  have cols: "\<forall>c \<in> set (column_names df) \<union> set (column_names g).
            c \<noteq> [] \<and> c \<notin> set WB_AGGREGATE_CODES \<and>
            (\<exists>r \<in> set records. survives r \<and> countryiso3code r = c)"
  proof
    fix c assume "c \<in> set (column_names df) \<union> set (column_names g)"
    then have "c \<in> set (column_names df)" using growth_axes(1) [OF assms(2)] by blast
    from transform_axes(1) [OF assms(1) this]
    obtain r where r: "r \<in> set records" "survives r" "countryiso3code r = c" by blast
    then show "c \<noteq> [] \<and> c \<notin> set WB_AGGREGATE_CODES \<and>
            (\<exists>r \<in> set records. survives r \<and> countryiso3code r = c)"
      by (auto simp: survives_def)
  qed
  have years: "\<forall>y \<in> set (index df) \<union> set (index g).
            \<exists>r \<in> set records. survives r \<and> date r = DateYear y"
  proof
    fix y assume "y \<in> set (index df) \<union> set (index g)"
    then have "y \<in> set (index df)" using growth_axes(2) [OF assms(2)] by blast
    from transform_axes(2) [OF assms(1) this]
    show "\<exists>r \<in> set records. survives r \<and> date r = DateYear y" .
  qed
  have cells: "index scenario_frame = [2000, 2002]"
    "cell scenario_frame 2000 ''USA'' = Some 10" "cell scenario_frame 2002 ''USA'' = Some 20"
    "cell scenario_two_frame 2001 ''USA'' = Some 15"
    by (simp_all add: scenario_frame_def scenario_two_frame_def cell_def)
  from cols years cells scenario_result scenario_two_result show ?thesis by blast
qed

theorem no_aggregate_code_in_tables_witness:
  "records_to_dataframe scenario_records = Inr (scenario_frame, [(''USA'', ''United States'')]) \<and>
   compute_growth_rate scenario_frame 5 = Inr empty_frame \<and>
   ''USA'' \<in> set (column_names scenario_frame) \<and>
   ''WLD'' \<in> set (map countryiso3code scenario_records) \<and>
   ''USA'' \<notin> set WB_AGGREGATE_CODES"
proof -
  have g: "compute_growth_rate scenario_frame 5 = Inr empty_frame"
    by (simp add: compute_growth_rate_def scenario_frame_def is_empty_def)
  have u: "''USA'' \<in> set (column_names scenario_frame)"
    by (simp add: scenario_frame_def column_names_def)
  have w: "''WLD'' \<in> set (map countryiso3code scenario_records)"
    by (simp add: scenario_records_def mk_record_def)
  from no_aggregate_code_in_tables [OF scenario_result g] u
  have "''USA'' \<notin> set WB_AGGREGATE_CODES" by blast
  with scenario_result g u w show ?thesis by blast
qed

text \<open>
  C10 as stated fails in its scenario: the year 2001 is not a row of the table, and the
  cell (2001, USA) is absent, not 15.
\<close>

theorem scenario_has_no_row_for_2001:
  "records_to_dataframe scenario_records = Inr (scenario_frame, [(''USA'', ''United States'')]) \<and>
   2001 \<notin> set (index scenario_frame) \<and>
   cell scenario_frame 2001 ''USA'' = None"
  using scenario_result by (simp add: scenario_frame_def cell_def)

section \<open>Properties of the growth rates\<close>

lemma shift_nth:
  "i < length xs \<Longrightarrow> shift n xs ! i = (if i < n then None else xs ! (i - n))"
  by (simp add: shift_def nth_append min_def)

lemma length_shift: "length (shift n xs) = length xs"
  by (simp add: shift_def)

text \<open>A cell of a growth column is computed from the cell \<open>window\<close> rows above it.\<close>

lemma growth_column_nth:
  assumes "i < length xs"
  shows "map2 (growth_cell w) xs (shift w xs) ! i =
           (if i < w then None else growth_cell w (xs ! i) (xs ! (i - w)))"
  using assms by (simp add: length_shift shift_nth growth_cell_def split: option.splits)

text \<open>With the window of 5: the growth cell of row \<open>i\<close> comes from the cells of rows
  \<open>i\<close> and \<open>i - 5\<close> of the column, whatever years these rows carry.\<close>

lemma growth_cell_by_row:
  assumes "compute_growth_rate df 5 = Inr g" and "\<not> is_empty df" and "5 \<le> length (index df)"
    and "(c, xs) \<in> set (cols df)" and "i < length xs"
  shows "\<exists>gs. (c, gs) \<in> set (cols g) \<and>
              gs ! i = (if i < 5 then None else growth_cell 5 (xs ! i) (xs ! (i - 5)))"
proof -
  have g: "cols g = map (\<lambda>(c, xs). (c, map2 (growth_cell 5) xs (shift 5 xs))) (cols df)"
    using assms(1-3) by (auto simp: compute_growth_rate_def split: if_splits)
  have "(c, map2 (growth_cell 5) xs (shift 5 xs)) \<in> set (cols g)"
    unfolding g using assms(4) by force
  with growth_column_nth [OF assms(5), of 5] show ?thesis by blast
qed

lemma root32: "(32::real) powr (1 / 5) = 2"
proof -
  have "(32::real) = 2 powr 5" by simp
  then show ?thesis by (simp add: powr_powr)
qed

lemma biennial_growth_result: "compute_growth_rate biennial_frame 5 = Inr biennial_growth"
  by (simp add: compute_growth_rate_def biennial_frame_def biennial_growth_def is_empty_def
      shift_def growth_cell_def root32)

text \<open>
  C3, the code at a table whose years are not consecutive. The records give USA a value
  every second year from 2000 to 2010. The table has 6 rows; the cell 5 rows above 2010 is
  the one of 2000. The table has no value for 2005, so the claim makes the growth cell of
  2010 absent; the code fills it with \<open>(32 / 1) ^ (1/5) - 1 = 1\<close>, a growth over ten years
  under the exponent of five.
\<close>

theorem growth_counts_rows_not_years:
  "records_to_dataframe biennial_records = Inr (biennial_frame, [(''USA'', ''United States'')]) \<and>
   compute_growth_rate biennial_frame 5 = Inr biennial_growth \<and>
   cell biennial_frame (2010 - 5) ''USA'' = None \<and>
   cell biennial_frame 2010 ''USA'' = Some 32 \<and>
   cell biennial_frame 2000 ''USA'' = Some 1 \<and>
   cell biennial_growth 2010 ''USA'' = Some 1"
  using biennial_result biennial_growth_result
  by (simp add: biennial_frame_def biennial_growth_def cell_def)

section \<open>Properties of the analytics\<close>

subsection \<open>Alignment of two Series\<close>

lemma reindexed_Cons:
  "reindexed ((k', v) # s) k = (if k = k' then v else reindexed s k)"
  by (simp add: reindexed_def)

lemma reindexed_not_key: "k \<notin> fst ` set s \<Longrightarrow> reindexed s k = None"
  by (cases "map_of s k") (force simp: reindexed_def dest: map_of_SomeD)+

lemma map_filter_cong_set:
  "(\<And>x. x \<in> set xs \<Longrightarrow> f x = g x) \<Longrightarrow> List.map_filter f xs = List.map_filter g xs"
  by (induction xs) (auto simp: List.map_filter_simps split: option.splits)

lemma zip_same_keys:
  assumes "map fst s = map fst t" "distinct (map fst s)"
  shows "List.map_filter (\<lambda>((k, x), (k', y)). both_present k x y) (zip s t) =
         List.map_filter (\<lambda>k. both_present k (reindexed s k) (reindexed t k)) (map fst s)"
  using assms
proof (induction s arbitrary: t)
  case Nil
  then show ?case by (simp add: List.map_filter_simps)
next
  case (Cons p s)
  then obtain q t' where t: "t = q # t'" by (cases t) auto
  obtain k x where p: "p = (k, x)" by (cases p)
  obtain k' y where q: "q = (k', y)" by (cases q)
  from Cons.prems(1) have "k' = k" and k2: "map fst s = map fst t'"
    unfolding t p q by simp_all
  from Cons.prems(2) have k3: "k \<notin> fst ` set s" and k4: "distinct (map fst s)"
    unfolding p by simp_all
  note keys = \<open>k' = k\<close> k2 k3 k4
  have "List.map_filter (\<lambda>k. both_present k (reindexed (p # s) k) (reindexed (q # t') k)) (map fst s)
      = List.map_filter (\<lambda>k. both_present k (reindexed s k) (reindexed t' k)) (map fst s)"
    using keys(3) by (intro map_filter_cong_set) (auto simp: p q keys(1) reindexed_Cons)
  with Cons.IH [OF keys(2,4)] show ?case
    by (simp add: t p q keys(1) List.map_filter_simps reindexed_Cons split: option.splits)
qed

lemma combine_frame_index:
  assumes "distinct (map fst s)" "distinct (map fst t)"
  shows "combine s t =
     Inr (List.map_filter (\<lambda>k. both_present k (reindexed s k) (reindexed t k)) (frame_index s t))"
  using assms by (simp add: combine_def frame_index_def zip_same_keys)

lemma distinct_frame_index: "distinct (map fst s) \<Longrightarrow> distinct (frame_index s t)"
  by (cases "map fst s = map fst t") (simp_all add: frame_index_def)

lemma set_frame_index: "set (frame_index s t) = fst ` set s \<union> fst ` set t"
proof (cases "map fst s = map fst t")
  case True
  then have "fst ` set t = fst ` set s" by (metis set_map)
  with True show ?thesis by (simp add: frame_index_def)
next
  case False
  then show ?thesis by (simp add: frame_index_def)
qed

lemma both_present_Some_iff:
  "both_present k x y = Some r \<longleftrightarrow> (\<exists>a b. x = Some a \<and> y = Some b \<and> r = (k, a, b))"
  by (auto simp: both_present_def split: option.splits)

lemma set_map_filter: "set (List.map_filter f xs) = {y. \<exists>x \<in> set xs. f x = Some y}"
  by (induction xs) (auto simp: List.map_filter_simps split: option.splits)

lemma map_fst_map_filter_keys:
  "map fst (List.map_filter (\<lambda>k. both_present k (f k) (g k)) ks) =
     filter (\<lambda>k. f k \<noteq> None \<and> g k \<noteq> None) ks"
  by (induction ks) (auto simp: List.map_filter_simps both_present_def split: option.splits)

lemma combine_rows:
  assumes "distinct (map fst s)" "distinct (map fst t)" "combine s t = Inr cs"
  shows "set cs = {(k, a, b). reindexed s k = Some a \<and> reindexed t k = Some b}"
    and "distinct (map fst cs)"
    and "set (map fst cs) = {k. aligned s t k}"
proof -
  have cs: "cs = List.map_filter (\<lambda>k. both_present k (reindexed s k) (reindexed t k)) (frame_index s t)"
    using combine_frame_index [OF assms(1,2)] assms(3) by simp
  have in_index: "\<And>k a. reindexed s k = Some a \<Longrightarrow> k \<in> set (frame_index s t)"
    using reindexed_not_key [of _ s] by (fastforce simp: set_frame_index)
  show "set cs = {(k, a, b). reindexed s k = Some a \<and> reindexed t k = Some b}"
    unfolding cs set_map_filter using in_index by (auto simp: both_present_Some_iff)
  show "distinct (map fst cs)"
    unfolding cs map_fst_map_filter_keys using distinct_frame_index [OF assms(1)] by simp
  show "set (map fst cs) = {k. aligned s t k}"
    unfolding cs map_fst_map_filter_keys using in_index by (auto simp: aligned_def)
qed

lemma combine_total:
  assumes "distinct (map fst s)" "distinct (map fst t)"
  shows "\<exists>cs. combine s t = Inr cs"
  using combine_frame_index [OF assms] by blast

subsection \<open>The green-growth ranking\<close>

lemma detect_green_growth_eq:
  assumes "combine co2 gdp = Inr cs"
  shows "detect_green_growth co2 gdp names n =
     Inr (map (\<lambda>(i, row). ranking_of names i row)
            (zip [0..<length (top_green cs n)] (top_green cs n)))"
  using assms by (simp add: detect_green_growth_def top_green_def Let_def)

lemma map_iso3_rankings:
  "map iso3 (map (\<lambda>(i, row). ranking_of names i row) (zip [0..<length rows] rows)) = map fst rows"
proof (rule nth_equalityI)
  show "length (map iso3 (map (\<lambda>(i, row). ranking_of names i row) (zip [0..<length rows] rows)))
      = length (map fst rows)" by simp
next
  fix i assume "i < length (map iso3 (map (\<lambda>(i, row). ranking_of names i row) (zip [0..<length rows] rows)))"
  then have "i < length rows" by simp
  then show "map iso3 (map (\<lambda>(i, row). ranking_of names i row) (zip [0..<length rows] rows)) ! i
      = map fst rows ! i"
    by (cases "rows ! i") (simp add: ranking_of_def)
qed

lemma map_rank_rankings:
  "map rank (map (\<lambda>(i, row). ranking_of names i row) (zip [0..<length rows] rows))
     = [1..<Suc (length rows)]"
proof (rule nth_equalityI)
  show "length (map rank (map (\<lambda>(i, row). ranking_of names i row) (zip [0..<length rows] rows)))
      = length [1..<Suc (length rows)]" by (simp del: upt_Suc)
next
  fix i assume "i < length (map rank (map (\<lambda>(i, row). ranking_of names i row) (zip [0..<length rows] rows)))"
  then have i: "i < length rows" by simp
  then have "[1..<Suc (length rows)] ! i = Suc i"
    using nth_upt [of 1 i "Suc (length rows)"] by simp
  with i show "map rank (map (\<lambda>(i, row). ranking_of names i row) (zip [0..<length rows] rows)) ! i
      = [1..<Suc (length rows)] ! i"
    by (cases "rows ! i") (simp add: ranking_of_def)
qed

lemma ranking_in_rows:
  assumes "e \<in> set (map (\<lambda>(i, row). ranking_of names i row) (zip [0..<length rows] rows))"
  shows "\<exists>i k c g. i < length rows \<and> rows ! i = (k, c, g) \<and> e = ranking_of names i (k, c, g)"
proof -
  from assms obtain i row where "(i, row) \<in> set (zip [0..<length rows] rows)"
    and e: "e = ranking_of names i row" by auto
  then have "i < length rows" "rows ! i = row"
    by (auto simp: set_zip)
  then show ?thesis using e by (cases row) auto
qed

lemma combined_values:
  assumes "distinct (map fst co2)" "distinct (map fst gdp)" "combine co2 gdp = Inr cs"
    and "(k, c, g) \<in> set cs"
  shows "value_at co2 k = c" "value_at gdp k = g" "aligned co2 gdp k"
    "score (k, c, g) = raw_score co2 gdp k"
    "is_green (k, c, g) \<longleftrightarrow> green co2 gdp k"
proof -
  from combine_rows(1) [OF assms(1-3)] assms(4)
  have r: "reindexed co2 k = Some c" "reindexed gdp k = Some g" by auto
  then show "value_at co2 k = c" "value_at gdp k = g" "aligned co2 gdp k"
    by (simp_all add: value_at_def aligned_def)
  then show "score (k, c, g) = raw_score co2 gdp k" "is_green (k, c, g) \<longleftrightarrow> green co2 gdp k"
    by (simp_all add: score_def raw_score_def is_green_def green_def)
qed

lemma green_rows_keys:
  assumes "distinct (map fst co2)" "distinct (map fst gdp)" "combine co2 gdp = Inr cs"
  shows "fst ` set (filter is_green cs) = {k. green co2 gdp k}"
proof (intro set_eqI iffI)
  fix k assume "k \<in> fst ` set (filter is_green cs)"
  then obtain c g where "(k, c, g) \<in> set cs" "is_green (k, c, g)" by auto
  with combined_values(5) [OF assms] show "k \<in> {k. green co2 gdp k}" by simp
next
  fix k assume "k \<in> {k. green co2 gdp k}"
  then have g: "green co2 gdp k" by simp
  then obtain c g' where "reindexed co2 k = Some c" "reindexed gdp k = Some g'"
    by (auto simp: green_def aligned_def)
  with combine_rows(1) [OF assms] have in_cs: "(k, c, g') \<in> set cs" by simp
  with combined_values(5) [OF assms in_cs] g have "(k, c, g') \<in> set (filter is_green cs)" by simp
  then show "k \<in> fst ` set (filter is_green cs)" by force
qed

lemma distinct_map_filter_keys: "distinct (map f xs) \<Longrightarrow> distinct (map f (filter P xs))"
  by (simp add: distinct_map_filter)

lemma sort_key_keys:
  "distinct (map f xs) \<Longrightarrow> distinct (map f (sort_key h xs))"
  by (simp add: distinct_map)

lemma top_green_facts:
  assumes "distinct (map fst co2)" "distinct (map fst gdp)" "combine co2 gdp = Inr cs"
  shows "set (top_green cs n) \<subseteq> set (filter is_green cs)"
    and "distinct (map fst (top_green cs n))"
    and "length (top_green cs n) = min n (card {k. green co2 gdp k})"
    and "sorted_wrt (\<ge>) (map score (top_green cs n))"
    and "\<And>row row'. row \<in> set (filter is_green cs) \<Longrightarrow> row \<notin> set (top_green cs n)
           \<Longrightarrow> row' \<in> set (top_green cs n) \<Longrightarrow> score row \<le> score row'"
proof -
  define gs where "gs = filter is_green cs"
  define ss where "ss = sort_key (\<lambda>row. - score row) gs"
  have top: "top_green cs n = take n ss" by (simp add: top_green_def ss_def gs_def)
  have dk: "distinct (map fst gs)"
    unfolding gs_def using combine_rows(2) [OF assms] by (rule distinct_map_filter_keys)
  then have ds: "distinct (map fst ss)" unfolding ss_def by (rule sort_key_keys)
  have set_ss: "set ss = set gs" by (simp add: ss_def)
  show "set (top_green cs n) \<subseteq> set (filter is_green cs)"
    unfolding top using set_ss set_take_subset [of n ss] by (simp add: gs_def)
  show "distinct (map fst (top_green cs n))"
    unfolding top using ds by (simp add: take_map [symmetric])
  have "card {k. green co2 gdp k} = card (set (map fst gs))"
    using green_rows_keys [OF assms] by (simp add: gs_def)
  also have "\<dots> = length gs" using distinct_card [OF dk] by simp
  finally have "card {k. green co2 gdp k} = length ss" by (simp add: ss_def)
  then show "length (top_green cs n) = min n (card {k. green co2 gdp k})"
    by (simp add: top min.commute)
  have sorted_ss: "sorted (map (\<lambda>row. - score row) ss)"
    unfolding ss_def by (rule sorted_sort_key)
  then have "sorted (map (\<lambda>row. - score row) (take n ss))"
    by (simp add: take_map [symmetric] sorted_wrt_take)
  then show "sorted_wrt (\<ge>) (map score (top_green cs n))"
    unfolding top by (simp add: sorted_wrt_map)
  fix row row'
  assume "row \<in> set (filter is_green cs)" "row \<notin> set (top_green cs n)"
    and r': "row' \<in> set (top_green cs n)"
  then have "row \<in> set ss" "row \<notin> set (take n ss)" by (simp_all add: top set_ss gs_def)
  then have "row \<in> set (drop n ss)"
    by (metis Un_iff append_take_drop_id set_append)
  moreover have "sorted (map (\<lambda>row. - score row) (take n ss @ drop n ss))"
    using sorted_ss by simp
  ultimately have "- score row' \<le> - score row"
    using r' unfolding top by (simp only: map_append sorted_append) auto
  then show "score row \<le> score row'" by simp
qed

lemma scenario_ranking:
  "detect_green_growth scenario_co2 scenario_gdp names 10 =
     Inr [\<lparr>rank = 1, iso3 = ''A'',
           country_name = (case map_of names ''A'' of None \<Rightarrow> ''A'' | Some n \<Rightarrow> n),
           gdp_growth_5y = 3, co2_growth_5y = - 2, decoupling_score = 5\<rparr>]"
  by (simp add: detect_green_growth_def combine_def scenario_co2_def scenario_gdp_def
      List.map_filter_simps both_present_def is_green_def score_def ranking_of_def
      py_round_def round_half_even_def)

lemma combined_score:
  assumes "distinct (map fst co2)" "distinct (map fst gdp)" "combine co2 gdp = Inr cs"
    and "row \<in> set cs"
  shows "score row = raw_score co2 gdp (fst row)"
proof -
  obtain k c g where row: "row = (k, c, g)" by (cases row)
  with combined_values(4) [OF assms(1-3), of k c g] assms(4) show ?thesis by simp
qed

text \<open>
  C8. For two growth Series indexed by country (each country once), the ranking keeps the
  countries that have a value in both, a positive GDP growth and a negative CO2 growth.
  It returns \<open>min top_n\<close> (number of such countries) entries, so at most \<open>top_n\<close>, with
  the ranks 1, 2, ... in order, no country twice, each entry carrying the two growth
  figures and their difference, each times 100 and rounded to 2 decimals; the entries
  come in falling order of the score, and no country left out has a higher score than one
  listed. When no country qualifies the list is empty. On the scenario of the
  specification the result is the single entry for A with score 5.
\<close>

theorem green_growth_ranking:
  assumes "distinct (map fst co2)" and "distinct (map fst gdp)"
  shows "\<exists>res. detect_green_growth co2 gdp names top_n = Inr res \<and>
    length res = min top_n (card {k. green co2 gdp k}) \<and>
    map rank res = [1..<Suc (length res)] \<and>
    distinct (map iso3 res) \<and>
    (\<forall>e \<in> set res.
       green co2 gdp (iso3 e) \<and>
       country_name e = (case map_of names (iso3 e) of None \<Rightarrow> iso3 e | Some n \<Rightarrow> n) \<and>
       gdp_growth_5y e = py_round 2 (value_at gdp (iso3 e) * 100) \<and>
       co2_growth_5y e = py_round 2 (value_at co2 (iso3 e) * 100) \<and>
       decoupling_score e = py_round 2 ((value_at gdp (iso3 e) - value_at co2 (iso3 e)) * 100)) \<and>
    sorted_wrt (\<ge>) (map (\<lambda>e. raw_score co2 gdp (iso3 e)) res) \<and>
    (\<forall>k. green co2 gdp k \<and> k \<notin> iso3 ` set res \<longrightarrow>
       (\<forall>e \<in> set res. raw_score co2 gdp k \<le> raw_score co2 gdp (iso3 e))) \<and>
    ((\<forall>k. \<not> green co2 gdp k) \<longrightarrow> res = []) \<and>
    detect_green_growth scenario_co2 scenario_gdp [] 10 =
      Inr [\<lparr>rank = 1, iso3 = ''A'', country_name = ''A'', gdp_growth_5y = 3,
            co2_growth_5y = - 2, decoupling_score = 5\<rparr>]"
proof -
  from combine_total [OF assms] obtain cs where cs: "combine co2 gdp = Inr cs" ..
  define top where "top = top_green cs top_n"
  define res where "res = map (\<lambda>(i, row). ranking_of names i row) (zip [0..<length top] top)"
  note facts = top_green_facts [OF assms cs, where n = top_n, folded top_def]
  have r: "detect_green_growth co2 gdp names top_n = Inr res"
    unfolding res_def top_def using cs by (rule detect_green_growth_eq)
  have len: "length res = length top" by (simp add: res_def)
  have iso: "map iso3 res = map fst top" unfolding res_def by (rule map_iso3_rankings)
  have in_cs: "\<And>row. row \<in> set top \<Longrightarrow> row \<in> set cs \<and> is_green row"
    using facts(1) by auto
  have c1: "length res = min top_n (card {k. green co2 gdp k})"
    using facts(3) len by simp
  have c2: "map rank res = [1..<Suc (length res)]"
    unfolding len unfolding res_def by (rule map_rank_rankings)
  have c3: "distinct (map iso3 res)" using facts(2) by (simp add: iso)
  have c4: "\<forall>e \<in> set res.
       green co2 gdp (iso3 e) \<and>
       country_name e = (case map_of names (iso3 e) of None \<Rightarrow> iso3 e | Some n \<Rightarrow> n) \<and>
       gdp_growth_5y e = py_round 2 (value_at gdp (iso3 e) * 100) \<and>
       co2_growth_5y e = py_round 2 (value_at co2 (iso3 e) * 100) \<and>
       decoupling_score e = py_round 2 ((value_at gdp (iso3 e) - value_at co2 (iso3 e)) * 100)"
  proof
    fix e assume "e \<in> set res"
    from ranking_in_rows [OF this [unfolded res_def]] obtain i k c g
      where i: "i < length top" "top ! i = (k, c, g)" and e: "e = ranking_of names i (k, c, g)"
      by blast
    from i have "(k, c, g) \<in> set top" by (metis nth_mem)
    with in_cs have m: "(k, c, g) \<in> set cs" and g: "is_green (k, c, g)" by auto
    note v = combined_values [OF assms cs m]
    show "green co2 gdp (iso3 e) \<and>
       country_name e = (case map_of names (iso3 e) of None \<Rightarrow> iso3 e | Some n \<Rightarrow> n) \<and>
       gdp_growth_5y e = py_round 2 (value_at gdp (iso3 e) * 100) \<and>
       co2_growth_5y e = py_round 2 (value_at co2 (iso3 e) * 100) \<and>
       decoupling_score e = py_round 2 ((value_at gdp (iso3 e) - value_at co2 (iso3 e)) * 100)"
      using v g by (simp add: e ranking_of_def score_def split: option.splits)
  qed
  have scores: "map (\<lambda>e. raw_score co2 gdp (iso3 e)) res = map score top"
  proof -
    have "map (\<lambda>e. raw_score co2 gdp (iso3 e)) res = map (raw_score co2 gdp) (map iso3 res)"
      by simp
    also have "\<dots> = map (\<lambda>row. raw_score co2 gdp (fst row)) top" by (simp add: iso)
    also have "\<dots> = map score top"
    proof (rule map_cong [OF refl])
      fix row assume "row \<in> set top"
      then have "row \<in> set cs" using in_cs by simp
      then show "raw_score co2 gdp (fst row) = score row"
        using combined_score [OF assms cs] by simp
    qed
    finally show ?thesis .
  qed
  have c5: "sorted_wrt (\<ge>) (map (\<lambda>e. raw_score co2 gdp (iso3 e)) res)"
    using facts(4) by (simp only: scores)
  have c6: "\<forall>k. green co2 gdp k \<and> k \<notin> iso3 ` set res \<longrightarrow>
       (\<forall>e \<in> set res. raw_score co2 gdp k \<le> raw_score co2 gdp (iso3 e))"
  proof (intro allI impI ballI)
    fix k e assume k: "green co2 gdp k \<and> k \<notin> iso3 ` set res" and e: "e \<in> set res"
    have keys: "iso3 ` set res = fst ` set top" using iso by (metis set_map)
    from k have "k \<in> fst ` set (filter is_green cs)"
      using green_rows_keys [OF assms cs] by simp
    then obtain c g where row: "(k, c, g) \<in> set (filter is_green cs)" by auto
    have "(k, c, g) \<notin> set top" using k keys by force
    from e keys obtain row' where row': "row' \<in> set top" "fst row' = iso3 e" by force
    from facts(5) [OF row \<open>(k, c, g) \<notin> set top\<close> row'(1)]
    have "score (k, c, g) \<le> score row'" .
    moreover have "score (k, c, g) = raw_score co2 gdp k"
      using row by (intro combined_values(4) [OF assms cs]) simp
    moreover have "score row' = raw_score co2 gdp (iso3 e)"
      using combined_score [OF assms cs, of row'] in_cs [OF row'(1)] row'(2) by simp
    ultimately show "raw_score co2 gdp k \<le> raw_score co2 gdp (iso3 e)" by simp
  qed
  have c7: "(\<forall>k. \<not> green co2 gdp k) \<longrightarrow> res = []"
  proof
    assume "\<forall>k. \<not> green co2 gdp k"
    then have "card {k. green co2 gdp k} = 0" by simp
    with c1 show "res = []" by simp
  qed
  have c8: "detect_green_growth scenario_co2 scenario_gdp [] 10 =
      Inr [\<lparr>rank = 1, iso3 = ''A'', country_name = ''A'', gdp_growth_5y = 3,
            co2_growth_5y = - 2, decoupling_score = 5\<rparr>]"
    using scenario_ranking [of "[]"] by simp
  from r c1 c2 c3 c4 c5 c6 c7 c8 show ?thesis by blast
qed

theorem green_growth_ranking_witness:
  "distinct (map fst scenario_co2) \<and> distinct (map fst scenario_gdp) \<and>
   (\<exists>res. detect_green_growth scenario_co2 scenario_gdp [] 10 = Inr res \<and> length res = 1)"
proof -
  have d: "distinct (map fst scenario_co2)" "distinct (map fst scenario_gdp)"
    by (simp_all add: scenario_co2_def scenario_gdp_def)
  from green_growth_ranking [OF d, of "[]" 10]
  have "\<exists>res. detect_green_growth scenario_co2 scenario_gdp [] 10 = Inr res \<and> length res = 1"
    by auto
  with d show ?thesis by blast
qed

subsection \<open>The correlation\<close>



















lemma py_round_int: "py_round n (of_int k) = of_int k"
proof -
  have "of_int k * 10 ^ n = (of_int (k * 10 ^ n) :: real)" by simp
  then have "round_half_even (of_int k * 10 ^ n) = k * 10 ^ n"
    by (simp only: round_half_even_def Let_def floor_of_int) simp
  then show ?thesis by (simp add: py_round_def)
qed






subsection \<open>The trend forecast\<close>



























text \<open>The forecast on the sample Series: the line through the three observations.\<close>

lemma sqrt_square_pos: "0 \<le> a \<Longrightarrow> sqrt (a * a) = a"
  by simp

lemma line_points: "dropna line_series = [(2000, 10), (2001, 12), (2003, 16)]"
  by (simp add: line_series_def dropna_def List.map_filter_simps)

lemma line_regression:
  "linregress pv [2000, 2001, 2003] [10, 12, 16] =
     Inr \<lparr>slope = 2, intercept = - 3990, r_value = 1,
          reg_p_value = pv (length [2000, 2001, 2003 :: real]) 1\<rparr>"
proof -
  have s: "sqrt (784 / 81) = 28 / 9"
    using sqrt_square_pos [of "28 / 9"] by simp
  show ?thesis
    by (simp add: linregress_def is_constant_def covariance_def deviations_def mean_def dot_def
        clip_def s)
qed

lemma line_forecast:
  "forecast_trend pv line_series 2030 =
     Inr \<lparr>target_year = 2030, predicted_value = Some 70, slope_per_year = Some 2,
          r_squared = Some 1,
          trend_p_value = Some (py_round 6 (pv (length [2000, 2001, 2003 :: real]) 1)),
          trend_points = Some
            [\<lparr>year = 2000, actual = Some 10, trend = 10\<rparr>,
             \<lparr>year = 2001, actual = Some 12, trend = 12\<rparr>,
             \<lparr>year = 2003, actual = Some 16, trend = 16\<rparr>,
             \<lparr>year = 2030, actual = None, trend = 70\<rparr>],
          trend_error = None\<rparr>"
proof -
  have r: "\<And>n k. py_round n (of_int k) = of_int k" by (rule py_round_int)
  have rounds: "py_round 4 70 = 70" "py_round 6 2 = 2" "py_round 4 1 = 1"
    "py_round 4 10 = 10" "py_round 4 12 = 12" "py_round 4 16 = 16"
    using r [of 4 70] r [of 6 2] r [of 4 1] r [of 4 10] r [of 4 12] r [of 4 16] by simp_all
  show ?thesis
    by (simp add: forecast_trend_def line_points line_regression rounds)
qed



section \<open>Properties of the cache and of the load\<close>

subsection \<open>The cache\<close>

lemma map_of_fold_update:
  "distinct (map fst data) \<Longrightarrow>
   map_of (fold (\<lambda>(k, v). AList.update k v) data init) k =
     (case map_of data k of Some v \<Rightarrow> Some v | None \<Rightarrow> map_of init k)"
proof (induction data arbitrary: init)
  case Nil
  then show ?case by simp
next
  case (Cons p data)
  obtain k' v' where p: "p = (k', v')" by (cases p)
  from Cons.prems have d: "distinct (map fst data)" and k': "map_of data k' = None"
    by (simp_all add: p map_of_eq_None_iff)
  show ?case
    using k' by (simp add: p Cons.IH [OF d] update_conv split: option.splits)
qed

lemma map_of_as_cache: "map_of (as_cache data) k = map_option Records (map_of data k)"
  by (induction data) (auto simp: as_cache_def)

lemma distinct_as_cache: "map fst (as_cache data) = map fst data"
  by (simp add: as_cache_def case_prod_unfold)

text \<open>
  C5. A raw-record map (one record list per indicator name; \<^verbatim>\<open>_meta\<close> is no indicator
  name) that is written to the cache and read back within the freshness window, with no
  write in between, comes back from the read: the map returned has, under every indicator
  name, exactly the records written, and no entry for any other indicator name.
\<close>

theorem cache_round_trip:
  assumes "distinct (map fst data)" and "''_meta'' \<notin> fst ` set data"
    and "(now' - now) / 3600 \<le> real_of_int max_age"
  shows "\<exists>c. load_cache max_age now' (save_cache Succeeds now (as_cache data) d) = Some c \<and>
              (\<forall>k rs. map_of data k = Some rs \<longrightarrow> map_of c k = Some (Records rs)) \<and>
              (\<forall>k. k \<noteq> ''_meta'' \<and> map_of data k = None \<longrightarrow> map_of c k = None)"
proof -
  define c where "c = fold (\<lambda>(k, v). AList.update k v) (as_cache data) [(''_meta'', Meta (Some now))]"
  have d: "distinct (map fst (as_cache data))" using assms(1) by (simp add: distinct_as_cache)
  have look: "\<And>k. map_of c k =
      (case map_of data k of Some rs \<Rightarrow> Some (Records rs)
       | None \<Rightarrow> if k = ''_meta'' then Some (Meta (Some now)) else None)"
    unfolding c_def map_of_fold_update [OF d] map_of_as_cache
    by (simp split: option.splits)
  have "map_of data ''_meta'' = None" using assms(2) by (simp add: map_of_eq_None_iff)
  then have "cache_timestamp c = Some now" by (simp add: cache_timestamp_def look)
  then have "load_cache max_age now' (save_cache Succeeds now (as_cache data) d) = Some c"
    using assms(3) by (simp add: load_cache_def save_cache_def c_def [symmetric])
  then show ?thesis using look by (intro exI [of _ c]) simp
qed

theorem cache_round_trip_witness:
  "distinct (map fst sample_data) \<and> ''_meta'' \<notin> fst ` set sample_data \<and>
   (1001 - 1000) / 3600 \<le> real_of_int 24 \<and>
   (\<exists>c. load_cache 24 1001 (save_cache Succeeds 1000 (as_cache sample_data) NoFile) = Some c \<and>
        map_of c ''co2_emissions'' = Some (Records scenario_records))"
proof -
  have h: "distinct (map fst sample_data)" "''_meta'' \<notin> fst ` set sample_data"
    "(1001 - 1000) / 3600 \<le> real_of_int 24"
    by (simp_all add: sample_data_def)
  have m: "map_of sample_data ''co2_emissions'' = Some scenario_records"
    by (simp add: sample_data_def)
  from cache_round_trip [OF h, of NoFile] m
  have "\<exists>c. load_cache 24 1001 (save_cache Succeeds 1000 (as_cache sample_data) NoFile) = Some c \<and>
        map_of c ''co2_emissions'' = Some (Records scenario_records)"
    by blast
  with h show ?thesis by blast
qed

subsection \<open>The load\<close>

lemma set_update_subset: "set (AList.update k v al) \<subseteq> insert (k, v) (set al)"
  by (induction al) auto

lemma growth_all_ok: "snd (growth_all names s) = None"
proof (induction names arbitrary: s)
  case Nil
  then show ?case by simp
next
  case (Cons name names)
  have "\<exists>g. compute_growth_rate (get_indicator_df s name) 5 = Inr g"
    by (simp add: compute_growth_rate_def)
  then show ?case using Cons.IH by auto
qed

lemma transform_all_ok:
  "(\<And>name v. (name, v) \<in> set raw \<Longrightarrow> \<exists>r. transform_value v = Inr r)
   \<Longrightarrow> snd (transform_all raw s) = None"
proof (induction raw arbitrary: s)
  case Nil
  then show ?case by simp
next
  case (Cons p raw)
  obtain name v where p: "p = (name, v)" by (cases p)
  from Cons.prems [of name v] obtain df names where "transform_value v = Inr (df, names)"
    by (auto simp: p)
  moreover have "\<And>s'. snd (transform_all raw s') = None"
    using Cons.prems by (intro Cons.IH) auto
  ultimately show ?case by (simp add: p)
qed

lemma fetch_into_values:
  assumes "(name, v) \<in> set (fetch_into e indicators raw)"
  shows "(name, v) \<in> set raw \<or> (\<exists>code. v = Records (fetch e code))"
  using assms
proof (induction indicators arbitrary: raw)
  case Nil
  then show ?case by (simp add: fetch_into_def)
next
  case (Cons p indicators)
  obtain n c where p: "p = (n, c)" by (cases p)
  from Cons.prems have "(name, v) \<in> set (fetch_into e indicators (AList.update n (Records (fetch e c)) raw))"
    by (simp add: fetch_into_def p)
  from Cons.IH [OF this] show ?case
    using set_update_subset [of n "Records (fetch e c)" raw] by auto
qed

lemma fetch_everything_values:
  assumes "(name, v) \<in> set (fetch_everything e)"
  shows "\<exists>code. v = Records (fetch e code)"
proof -
  have "\<And>raw. (name, v) \<in> set (fold (\<lambda>(cname, description, indicators). fetch_into e indicators) cs raw)
      \<Longrightarrow> (name, v) \<in> set raw \<or> (\<exists>code. v = Records (fetch e code))" for cs
  proof (induction cs)
    case Nil
    then show ?case by simp
  next
    case (Cons c cs)
    obtain cname descr inds where c: "c = (cname, descr, inds)" by (cases c)
    from Cons.prems have "(name, v) \<in> set (fold (\<lambda>(cname, description, indicators). fetch_into e indicators) cs
        (fetch_into e inds raw))" by (simp add: c)
    from Cons.IH [OF this] show ?case using fetch_into_values [of name v e inds raw] by blast
  qed
  from this [of CLUSTERS "[]"] assms show ?thesis by (simp add: fetch_everything_def)
qed

lemma sample_fetch_transforms: "\<exists>r. transform_value (Records (fetch sample_env code)) = Inr r"
proof (cases "code = ''EN.GHG.CO2.PC.CE.AR5''")
  case True
  then show ?thesis using scenario_result by (simp add: transform_value_def sample_env_def)
next
  case False
  then show ?thesis by (simp add: transform_value_def sample_env_def records_to_dataframe_def)
qed

lemma raised_load_all:
  "raised (load_all e s d) =
     (if loaded s then None else snd (transform_all (fst (gather_raw e d)) s))"
proof (cases "loaded s")
  case True
  then show ?thesis by (simp add: load_all_def)
next
  case False
  obtain raw d' calls where g: "gather_raw e d = (raw, d', calls)" by (cases "gather_raw e d")
  obtain s1 err where t: "transform_all raw s = (s1, err)" by (cases "transform_all raw s")
  obtain s2 err2 where gr: "growth_all (map fst INDICATORS) s1 = (s2, err2)"
    by (cases "growth_all (map fst INDICATORS) s1")
  have "err2 = None" using growth_all_ok [of "map fst INDICATORS" s1] gr by simp
  then show ?thesis
    using False by (cases err) (simp_all add: load_all_def g t gr)
qed

lemma sample_load_completes: "raised (load_all sample_env new_collector NoFile) = None"
proof -
  have g: "fst (gather_raw sample_env NoFile) = fetch_everything sample_env"
    by (simp add: gather_raw_def load_cache_def Let_def)
  have "snd (transform_all (fetch_everything sample_env) new_collector) = None"
  proof (rule transform_all_ok)
    fix name v assume "(name, v) \<in> set (fetch_everything sample_env)"
    from fetch_everything_values [OF this] show "\<exists>r. transform_value v = Inr r"
      using sample_fetch_transforms by auto
  qed
  then show ?thesis by (simp add: raised_load_all g new_collector_def)
qed

lemma load_all_completed:
  "raised (load_all e s d) = None \<Longrightarrow> loaded (state (load_all e s d))"
  by (auto simp: load_all_def split: prod.splits option.splits if_splits)

text \<open>
  C4. After a load that completed, a second load is a no-op whatever the environment and
  the disk are then: it fetches nothing, writes nothing, and returns the collector as it
  was, with every table and the country registry unchanged.
\<close>

theorem load_all_idempotent:
  assumes "raised (load_all e s d) = None"
  shows "load_all e' (state (load_all e s d)) d' =
           \<lparr>state = state (load_all e s d), disk_after = d', fetched = [], raised = None\<rparr>"
  using load_all_completed [OF assms] by (simp add: load_all_def)

theorem load_all_idempotent_witness:
  "raised (load_all sample_env new_collector NoFile) = None \<and>
   load_all sample_env (state (load_all sample_env new_collector NoFile))
       (disk_after (load_all sample_env new_collector NoFile)) =
     \<lparr>state = state (load_all sample_env new_collector NoFile),
      disk_after = disk_after (load_all sample_env new_collector NoFile),
      fetched = [], raised = None\<rparr>"
  using load_all_idempotent [OF sample_load_completes] sample_load_completes by simp

section \<open>Properties of the data access\<close>

lemma and_then_Inr [simp]: "and_then (Inr x) f = f x"
  by (simp add: and_then_def)

lemma collect_map_Inr:
  "(\<And>x. x \<in> set xs \<Longrightarrow> f x = Inr (g x)) \<Longrightarrow> collect (map f xs) = Inr (map g xs)"
  by (induction xs) simp_all

lemma collect_total:
  "(\<And>x. x \<in> set xs \<Longrightarrow> \<exists>y. f x = Inr y) \<Longrightarrow> \<exists>ys. collect (map f xs) = Inr ys"
proof -
  assume a: "\<And>x. x \<in> set xs \<Longrightarrow> \<exists>y. f x = Inr y"
  define g where "g x = (case f x of Inr y \<Rightarrow> y)" for x
  have "\<And>x. x \<in> set xs \<Longrightarrow> f x = Inr (g x)"
  proof -
    fix x assume "x \<in> set xs"
    from a [OF this] obtain y where "f x = Inr y" ..
    then show "f x = Inr (g x)" by (simp add: g_def)
  qed
  from collect_map_Inr [of xs f g, OF this] show ?thesis by blast
qed

lemma get_indicator_df_unknown:
  "indicator \<notin> fst ` set (dataframes s) \<Longrightarrow> get_indicator_df s indicator = empty_frame"
  by (simp add: get_indicator_df_def map_of_eq_None_iff [THEN iffD2])

lemma is_empty_empty_frame: "is_empty empty_frame"
  by (simp add: is_empty_def empty_frame_def)

lemma get_country_series_total: "\<exists>ser. get_country_series s c indicator = Inr ser"
proof -
  define df where "df = get_indicator_df s indicator"
  show ?thesis
  proof (cases "is_empty df \<or> c \<notin> set (column_names df)")
    case True
    then show ?thesis by (simp add: get_country_series_def df_def [symmetric])
  next
    case False
    then have "c \<in> fst ` set (cols df)" by (simp add: column_names_def)
    then obtain xs where "map_of (cols df) c = Some xs"
      by (metis map_of_eq_None_iff not_Some_eq)
    then show ?thesis using False
      by (simp add: get_country_series_def df_def [symmetric] column_def)
  qed
qed

lemma get_country_series_unknown_indicator:
  "indicator \<notin> fst ` set (dataframes s) \<Longrightarrow> get_country_series s c indicator = Inr []"
  by (simp add: get_country_series_def get_indicator_df_unknown is_empty_empty_frame)

lemma get_indicator_df_cases:
  "get_indicator_df s indicator = empty_frame \<or>
   (indicator, get_indicator_df s indicator) \<in> set (dataframes s)"
  by (auto simp: get_indicator_df_def split: option.splits dest: map_of_SomeD)

lemma get_country_series_unknown_country:
  assumes "unknown_country s c"
  shows "get_country_series s c indicator = Inr []"
proof -
  from get_indicator_df_cases [of s indicator]
  have "is_empty (get_indicator_df s indicator) \<or> c \<notin> set (column_names (get_indicator_df s indicator))"
  proof
    assume "get_indicator_df s indicator = empty_frame"
    then show ?thesis by (simp add: is_empty_empty_frame)
  next
    assume "(indicator, get_indicator_df s indicator) \<in> set (dataframes s)"
    with assms show ?thesis by (auto simp: unknown_country_def)
  qed
  then show ?thesis by (simp add: get_country_series_def)
qed

lemma latest_of_total: "\<exists>v. latest_of xs = Inr v"
  by (simp add: latest_of_def iloc_last_def Let_def)

lemma latest_value_total: "\<exists>v. latest_value r series = Inr v"
  by (cases "last series") (simp add: latest_value_def iloc_last_def)

lemma latest_value_Nil: "latest_value r [] = Inr None"
  by (simp add: latest_value_def)

lemma get_latest_values_total: "\<exists>vals. get_latest_values s indicator = Inr vals"
proof (cases "is_empty (get_indicator_df s indicator)")
  case True
  then show ?thesis by (simp add: get_latest_values_def)
next
  case False
  have "\<exists>ys. collect (map (\<lambda>(c, xs). and_then (latest_of xs) (\<lambda>v. Inr (c, v)))
      (cols (get_indicator_df s indicator))) = Inr ys"
  proof (rule collect_total)
    fix x assume "x \<in> set (cols (get_indicator_df s indicator))"
    obtain c xs where x: "x = (c, xs)" by (cases x)
    from latest_of_total [of xs] obtain v where "latest_of xs = Inr v" ..
    then show "\<exists>y. (case x of (c, xs) \<Rightarrow> and_then (latest_of xs) (\<lambda>v. Inr (c, v))) = Inr y"
      by (simp add: x)
  qed
  with False show ?thesis by (simp add: get_latest_values_def)
qed

lemma get_latest_values_unknown:
  "indicator \<notin> fst ` set (dataframes s) \<Longrightarrow> get_latest_values s indicator = Inr []"
  by (simp add: get_latest_values_def get_indicator_df_unknown is_empty_empty_frame)

lemma all_series_total: "\<exists>sers. all_series s c indicators = Inr sers"
  unfolding all_series_def
proof (rule collect_total)
  fix x assume "x \<in> set indicators"
  obtain indicator code where x: "x = (indicator, code)" by (cases x)
  from get_country_series_total [of s c indicator] obtain ser
    where "get_country_series s c indicator = Inr ser" ..
  then show "\<exists>y. (case x of (indicator, code) \<Rightarrow>
      and_then (get_country_series s c indicator) (\<lambda>series. Inr (indicator, series))) = Inr y"
    by (simp add: x)
qed

lemma all_series_unknown_country:
  assumes "unknown_country s c"
  shows "all_series s c indicators = Inr (map (\<lambda>(indicator, code). (indicator, [])) indicators)"
  unfolding all_series_def
  by (rule collect_map_Inr)
     (auto simp: get_country_series_unknown_country [OF assms])

lemma by_year_empty: "by_year (map (\<lambda>(indicator, code). (indicator, [])) indicators) = []"
proof -
  have "\<And>acc. fold (\<lambda>(indicator, series). fold (add_point indicator) series)
      (map (\<lambda>(indicator, code). (indicator, [])) indicators) acc = acc"
    by (induction indicators) auto
  then show ?thesis by (simp add: by_year_def)
qed

lemma indicator_profile_total: "\<exists>p. indicator_profile_of s c indicator = Inr p"
proof -
  obtain ser where 1: "get_country_series s c indicator = Inr ser"
    using get_country_series_total by blast
  obtain cur where 2: "latest_value (py_round 4) ser = Inr cur"
    using latest_value_total by blast
  obtain gs where 3: "get_country_series s c (indicator @ ''_growth_5y'') = Inr gs"
    using get_country_series_total by blast
  obtain g where 4: "latest_value (py_round 6) gs = Inr g"
    using latest_value_total by blast
  show ?thesis by (simp add: indicator_profile_of_def 1 2 3 4)
qed

lemma indicator_profile_unknown_country:
  assumes "unknown_country s c"
  shows "indicator_profile_of s c indicator = Inr \<lparr>current = None, history = [], growth_5y = None\<rparr>"
  by (simp add: indicator_profile_of_def get_country_series_unknown_country [OF assms]
      latest_value_Nil)

lemma get_country_profile_total: "\<exists>p. get_country_profile_v2 s c = Inr p"
proof -
  have "\<exists>data. collect (map (\<lambda>(cluster_name, description, indicators).
          and_then
            (collect (map (\<lambda>(indicator, code).
                and_then (indicator_profile_of s c indicator) (\<lambda>p. Inr (indicator, p))) indicators))
            (\<lambda>ps. Inr (cluster_name, ps))) CLUSTERS) = Inr data"
  proof (rule collect_total)
    fix x assume "x \<in> set CLUSTERS"
    obtain cname descr inds where x: "x = (cname, descr, inds)" by (cases x)
    have "\<exists>ps. collect (map (\<lambda>(indicator, code).
        and_then (indicator_profile_of s c indicator) (\<lambda>p. Inr (indicator, p))) inds) = Inr ps"
    proof (rule collect_total)
      fix y assume "y \<in> set inds"
      obtain indicator code where y: "y = (indicator, code)" by (cases y)
      from indicator_profile_total [of s c indicator] obtain p
        where "indicator_profile_of s c indicator = Inr p" ..
      then show "\<exists>z. (case y of (indicator, code) \<Rightarrow>
          and_then (indicator_profile_of s c indicator) (\<lambda>p. Inr (indicator, p))) = Inr z"
        by (simp add: y)
    qed
    then obtain ps where "collect (map (\<lambda>(indicator, code).
        and_then (indicator_profile_of s c indicator) (\<lambda>p. Inr (indicator, p))) inds) = Inr ps" ..
    then show "\<exists>y. (case x of (cluster_name, description, indicators) \<Rightarrow>
          and_then
            (collect (map (\<lambda>(indicator, code).
                and_then (indicator_profile_of s c indicator) (\<lambda>p. Inr (indicator, p))) indicators))
            (\<lambda>ps. Inr (cluster_name, ps))) = Inr y"
      by (simp add: x)
  qed
  then show ?thesis by (auto simp: get_country_profile_v2_def)
qed

lemma get_country_profile_unknown:
  assumes "unknown_country s c"
  shows "get_country_profile_v2 s c =
     Inr \<lparr>profile_iso3 = c, profile_name = get_country_name s c,
          profile_data = empty_profile_data\<rparr>"
proof -
  have inner: "\<And>inds. collect (map (\<lambda>(indicator, code).
        and_then (indicator_profile_of s c indicator) (\<lambda>p. Inr (indicator, p))) inds)
      = Inr (map (\<lambda>(indicator, code).
           (indicator, \<lparr>current = None, history = [], growth_5y = None\<rparr>)) inds)"
    by (rule collect_map_Inr) (auto simp: indicator_profile_unknown_country [OF assms])
  have "collect (map (\<lambda>(cluster_name, description, indicators).
          and_then
            (collect (map (\<lambda>(indicator, code).
                and_then (indicator_profile_of s c indicator) (\<lambda>p. Inr (indicator, p))) indicators))
            (\<lambda>ps. Inr (cluster_name, ps))) CLUSTERS) = Inr empty_profile_data"
    unfolding empty_profile_data_def
    by (rule collect_map_Inr) (auto simp: inner)
  then show ?thesis by (simp add: get_country_profile_v2_def)
qed

lemma build_master_snapshot_total: "\<exists>rows. build_master_snapshot s = Inr rows"
  unfolding build_master_snapshot_def
proof (rule collect_total)
  fix c assume "c \<in> set (get_all_countries s)"
  have "\<exists>vs. collect (map (\<lambda>(indicator, code).
              and_then (get_country_series s c indicator) (\<lambda>series.
              and_then (latest_value id series) (\<lambda>v. Inr (indicator, v)))) INDICATORS) = Inr vs"
  proof (rule collect_total)
    fix x assume "x \<in> set INDICATORS"
    obtain indicator code where x: "x = (indicator, code)" by (cases x)
    obtain ser where 1: "get_country_series s c indicator = Inr ser"
      using get_country_series_total by blast
    obtain v where 2: "latest_value id ser = Inr v" using latest_value_total by blast
    show "\<exists>y. (case x of (indicator, code) \<Rightarrow>
              and_then (get_country_series s c indicator) (\<lambda>series.
              and_then (latest_value id series) (\<lambda>v. Inr (indicator, v)))) = Inr y"
      by (simp add: x 1 2)
  qed
  then show "\<exists>y. and_then
          (collect (map (\<lambda>(indicator, code).
              and_then (get_country_series s c indicator) (\<lambda>series.
              and_then (latest_value id series) (\<lambda>v. Inr (indicator, v)))) INDICATORS))
          (\<lambda>vs. Inr \<lparr>row_iso3 = c, row_country = get_country_name s c, row_values = vs\<rparr>) = Inr y"
    by auto
qed

lemma get_cluster_data_total: "\<exists>d. get_cluster_data s cluster = Inr d"
proof (cases "map_of CLUSTERS cluster")
  case None
  then show ?thesis by (simp add: get_cluster_data_def)
next
  case (Some cdef)
  obtain descr inds where cdef: "cdef = (descr, inds)" by (cases cdef)
  have "\<exists>rows. collect (map (\<lambda>c. and_then (all_series s c inds) (\<lambda>sers. Inr (c, sers)))
                         (get_all_countries s)) = Inr rows"
  proof (rule collect_total)
    fix c assume "c \<in> set (get_all_countries s)"
    from all_series_total [of s c inds] obtain sers where "all_series s c inds = Inr sers" ..
    then show "\<exists>y. and_then (all_series s c inds) (\<lambda>sers. Inr (c, sers)) = Inr y" by simp
  qed
  then show ?thesis by (auto simp: get_cluster_data_def Some cdef)
qed

lemma get_cluster_data_unknown:
  "cluster \<notin> fst ` set CLUSTERS \<Longrightarrow> get_cluster_data s cluster = Inr []"
  by (simp add: get_cluster_data_def map_of_eq_None_iff [THEN iffD2])

lemma get_cluster_indicators_unknown:
  "cluster \<notin> fst ` set CLUSTERS \<Longrightarrow> get_cluster_indicators cluster = []"
  by (simp add: get_cluster_indicators_def map_of_eq_None_iff [THEN iffD2])

lemma get_country_cluster_profile_total: "\<exists>p. get_country_cluster_profile s c = Inr p"
  unfolding get_country_cluster_profile_def
proof (rule collect_total)
  fix x assume "x \<in> set CLUSTERS"
  obtain cname descr inds where x: "x = (cname, descr, inds)" by (cases x)
  from all_series_total [of s c inds] obtain sers where "all_series s c inds = Inr sers" ..
  then show "\<exists>y. (case x of (cluster_name, description, indicators) \<Rightarrow>
        and_then (all_series s c indicators) (\<lambda>sers. Inr (cluster_name, by_year sers))) = Inr y"
    by (simp add: x)
qed

lemma get_country_cluster_profile_unknown:
  assumes "unknown_country s c"
  shows "get_country_cluster_profile s c =
           Inr (map (\<lambda>(cluster_name, description, indicators). (cluster_name, [])) CLUSTERS)"
  unfolding get_country_cluster_profile_def
  by (rule collect_map_Inr)
     (auto simp: all_series_unknown_country [OF assms] by_year_empty)

lemma unknown_country_not_listed:
  assumes "unknown_country s c"
  shows "c \<notin> set (get_all_countries s)"
  using assms by (auto simp: get_all_countries_def unknown_country_def split: if_splits)

lemma get_country_name_unknown:
  "c \<notin> fst ` set (country_names s) \<Longrightarrow> get_country_name s c = c"
  by (simp add: get_country_name_def map_of_eq_None_iff [THEN iffD2])

text \<open>
  C9. No accessor raises, whatever the collector, the country code, the indicator name
  and the cluster name are. For an indicator name the collector has no table for, the
  table, the country series and the latest values are empty. For a country code that is a
  column of no table, the series of every indicator is empty, the country profile lists
  every indicator of every cluster with null \<open>current\<close>, empty \<open>history\<close> and null
  \<open>growth_5y\<close>, the legacy cluster profile is empty in every cluster, and the code is not
  among the known countries; a code that the registry does not know has itself as its
  display name. For an unknown cluster name the indicator list and the cluster data are
  empty. The snapshot and the metadata accessors take no identifier and return a value.
\<close>

theorem facade_tolerates_unknown_identifiers:
  "(\<exists>series. get_country_series s c indicator = Inr series) \<and>
   (\<exists>vals. get_latest_values s indicator = Inr vals) \<and>
   (\<exists>p. get_country_profile_v2 s c = Inr p) \<and>
   (\<exists>rows. build_master_snapshot s = Inr rows) \<and>
   (\<exists>p. get_country_cluster_profile s c = Inr p) \<and>
   (\<exists>data. get_cluster_data s cluster = Inr data) \<and>
   (indicator \<notin> fst ` set (dataframes s) \<longrightarrow>
      get_indicator_df s indicator = empty_frame \<and>
      get_country_series s c indicator = Inr [] \<and>
      get_latest_values s indicator = Inr []) \<and>
   (unknown_country s c \<longrightarrow>
      get_country_series s c indicator = Inr [] \<and>
      get_country_profile_v2 s c =
        Inr \<lparr>profile_iso3 = c, profile_name = get_country_name s c,
             profile_data = empty_profile_data\<rparr> \<and>
      get_country_cluster_profile s c =
        Inr (map (\<lambda>(cluster_name, description, indicators). (cluster_name, [])) CLUSTERS) \<and>
      c \<notin> set (get_all_countries s) \<and>
      c \<notin> fst ` set (get_countries_meta s)) \<and>
   (c \<notin> fst ` set (country_names s) \<longrightarrow> get_country_name s c = c) \<and>
   (cluster \<notin> fst ` set CLUSTERS \<longrightarrow>
      get_cluster_indicators cluster = [] \<and> get_cluster_data s cluster = Inr [])"
proof -
  have meta: "fst ` set (get_countries_meta s) = set (get_all_countries s)"
    by (force simp: get_countries_meta_def)
  show ?thesis
    using get_country_series_total [of s c indicator] get_latest_values_total [of s indicator]
      get_country_profile_total [of s c] build_master_snapshot_total [of s]
      get_country_cluster_profile_total [of s c] get_cluster_data_total [of s cluster]
      get_indicator_df_unknown [of indicator s]
      get_country_series_unknown_indicator [of indicator s c]
      get_latest_values_unknown [of indicator s]
      get_country_series_unknown_country [of s c indicator]
      get_country_profile_unknown [of s c] get_country_cluster_profile_unknown [of s c]
      unknown_country_not_listed [of s c] get_country_name_unknown [of c s]
      get_cluster_indicators_unknown [of cluster] get_cluster_data_unknown [of cluster s]
    unfolding meta by blast
qed

theorem facade_tolerates_unknown_identifiers_witness:
  "''no_such_indicator'' \<notin> fst ` set (dataframes sample_collector) \<and>
   unknown_country sample_collector ''ZZZ'' \<and>
   ''ZZZ'' \<notin> fst ` set (country_names sample_collector) \<and>
   ''no_such_cluster'' \<notin> fst ` set CLUSTERS \<and>
   get_country_series sample_collector ''ZZZ'' ''no_such_indicator'' = Inr [] \<and>
   get_latest_values sample_collector ''no_such_indicator'' = Inr [] \<and>
   get_country_profile_v2 sample_collector ''ZZZ'' =
     Inr \<lparr>profile_iso3 = ''ZZZ'', profile_name = ''ZZZ'', profile_data = empty_profile_data\<rparr> \<and>
   get_cluster_data sample_collector ''no_such_cluster'' = Inr []"
proof -
  have h: "''no_such_indicator'' \<notin> fst ` set (dataframes sample_collector)"
    "unknown_country sample_collector ''ZZZ''"
    "''ZZZ'' \<notin> fst ` set (country_names sample_collector)"
    by (simp_all add: sample_collector_def unknown_country_def scenario_frame_def column_names_def)
  have k: "''no_such_cluster'' \<notin> fst ` set CLUSTERS"
    by (simp add: CLUSTERS_def)
  from facade_tolerates_unknown_identifiers
    [of sample_collector "''ZZZ''" "''no_such_indicator''" "''no_such_cluster''"] h k
  show ?thesis by simp
qed

end
